theory Spec2Isabelle
  imports Complex_Main "HOL-Library.Word"
begin

unbundle bit_operations_syntax

section \<open>S2Tiles: the archive engine of \<^verbatim>\<open>src/index.ts\<close>\<close>

text \<open>
  A JavaScript number that holds an integer is an \<open>int\<close> (coordinates, slot indices,
  cursors) or a \<open>nat\<close> (zoom levels, byte counts, append offsets, which the code never makes
  negative); numbers are taken as exact, which they are below \<open>2\<^sup>5\<^sup>3\<close>. The one quotient the
  code forms, in \<^verbatim>\<open>_writeUInt48LE\<close>, is a \<open>real\<close>. The bitwise operators of JavaScript
  work on the 32-bit two's complement reading of their operand; that conversion is written
  out as \<open>toInt32\<close>. Bytes are \<open>8 word\<close>, byte buffers are lists.
\<close>

type_synonym byte = "8 word"

subsection \<open>Constants\<close>

definition NODE_SIZE :: nat where
  "NODE_SIZE = 10"

definition DIR_SIZE :: nat where
  "DIR_SIZE = 1365 * NODE_SIZE"

definition METADATA_SIZE :: nat where
  "METADATA_SIZE = 131072"

definition ROOT_DIR_SIZE :: nat where
  "ROOT_DIR_SIZE = DIR_SIZE * 6"

definition ROOT_SIZE :: nat where
  "ROOT_SIZE = METADATA_SIZE + ROOT_DIR_SIZE"

subsection \<open>JavaScript's 32-bit operators\<close>

definition toInt32 :: "int \<Rightarrow> int" where
  "toInt32 v = (v + 2 ^ 31) mod 2 ^ 32 - 2 ^ 31"

text \<open>\<^verbatim>\<open>v & 31\<close>\<close>

definition and31 :: "int \<Rightarrow> int" where
  "and31 v = toInt32 v AND 31"

text \<open>\<^verbatim>\<open>v >> 5\<close>, the arithmetic shift\<close>

definition shr5 :: "int \<Rightarrow> int" where
  "shr5 v = drop_bit 5 (toInt32 v)"

text \<open>\<^verbatim>\<open>1 << z\<close>: the shift count is taken modulo 32\<close>

definition shl1 :: "int \<Rightarrow> int" where
  "shl1 z = toInt32 (push_bit (nat (z mod 32)) 1)"

subsection \<open>The path encoder \<^verbatim>\<open>getS2TilePath\<close>\<close>

text \<open>
  The first loop of \<^verbatim>\<open>getS2TilePath\<close>: while \<open>zoom \<ge> 5\<close> it pushes the slice of the low five
  bits of \<open>x\<close> and \<open>y\<close> and shifts both; the residual slice is pushed last.
\<close>

fun slices :: "nat \<Rightarrow> int \<Rightarrow> int \<Rightarrow> (nat \<times> int \<times> int) list" where
  "slices zoom x y =
     (if zoom \<ge> 5
      then (5, and31 x, and31 y) # slices (max (zoom - 5) 0) (shr5 x) (shr5 y)
      else [(zoom, x, y)])"

declare slices.simps [simp del]

text \<open>
  The inner loop \<^verbatim>\<open>while (zoom-- !== 0) val += pow(1 << zoom, 2)\<close>: the test reads the
  counter, the body sees it decremented.
\<close>

fun levelLoop :: "nat \<Rightarrow> int \<Rightarrow> int" where
  "levelLoop 0 val = val"
| "levelLoop (Suc zoom) val = levelLoop zoom (val + (shl1 (int zoom))\<^sup>2)"

text \<open>The function mapped over the slices.\<close>

definition slotIndex :: "nat \<Rightarrow> int \<Rightarrow> int \<Rightarrow> int" where
  "slotIndex zoom x y = levelLoop zoom (0 + (y * shl1 (int zoom) + x))"

definition getS2TilePath :: "nat \<Rightarrow> int \<Rightarrow> int \<Rightarrow> int list" where
  "getS2TilePath zoom x y = map (\<lambda>(z, xi, yi). slotIndex z xi yi) (slices zoom x y)"

subsection \<open>Errors, compression kinds and the codecs\<close>

datatype error =
    BadMetadata                   \<comment> \<open>\<^verbatim>\<open>Bad metadata from ...\<close>\<close>
  | FailedMetadata                \<comment> \<open>\<^verbatim>\<open>Failed to extrapolate ... metadata\<close>\<close>
  | MetadataTooLarge              \<comment> \<open>\<^verbatim>\<open>Metadata too large for S2Tiles\<close>\<close>
  | DecompressionNotSupported     \<comment> \<open>\<^verbatim>\<open>Decompression type not supported\<close>\<close>
  | CompressionNotSupported       \<comment> \<open>\<^verbatim>\<open>Compression type not supported\<close>\<close>
  | RangeError                    \<comment> \<open>thrown by the \<^verbatim>\<open>Buffer\<close> writers and by \<^verbatim>\<open>fs\<close> on an argument out of range\<close>
  | CodecError                    \<comment> \<open>thrown by \<^verbatim>\<open>zlib\<close>\<close>
  | SyntaxError                   \<comment> \<open>thrown by \<^verbatim>\<open>JSON.parse\<close>\<close>

text \<open>
  The enum \<^verbatim>\<open>Compression\<close> is numeric, and \<^verbatim>\<open>setup\<close> casts any header byte to it, so a
  compression kind is a number.
\<close>

type_synonym Compression = nat

definition Unknown :: Compression where "Unknown = 0"
definition NoneC :: Compression where "NoneC = 1"
definition Gzip :: Compression where "Gzip = 2"
definition Brotli :: Compression where "Brotli = 3"

text \<open>
  The functions of the platform are not code of this repository: they are parameters. Each
  of the four \<^verbatim>\<open>zlib\<close> functions stands for the promisified call together with the
  \<^verbatim>\<open>new Uint8Array(_.buffer)\<close> that wraps its result; \<open>jsonParse\<close> stands for
  \<^verbatim>\<open>JSON.parse(this.decoder.decode(_))\<close>, which throws on bytes that are not the text of a
  JSON value, and \<open>'m\<close> for the type \<^verbatim>\<open>Metadata\<close> of the package \<^verbatim>\<open>s2-tilejson\<close>.
\<close>

record 'm codec =
  gzip :: "byte list \<Rightarrow> error + byte list"
  gunzip :: "byte list \<Rightarrow> error + byte list"
  brotliCompress :: "byte list \<Rightarrow> error + byte list"
  brotliDecompress :: "byte list \<Rightarrow> error + byte list"
  jsonParse :: "byte list \<Rightarrow> error + 'm"

definition decompress :: "'m codec \<Rightarrow> byte list \<Rightarrow> Compression \<Rightarrow> error + byte list" where
  "decompress cd data c =
     (if c = NoneC then Inr data
      else if c = Gzip then gunzip cd data
      else if c = Brotli then brotliDecompress cd data
      else Inl DecompressionNotSupported)"

definition compress :: "'m codec \<Rightarrow> byte list \<Rightarrow> Compression \<Rightarrow> error + byte list" where
  "compress cd data c =
     (if c = NoneC then Inr data
      else if c = Gzip then gzip cd data
      else if c = Brotli then brotliCompress cd data
      else Inl CompressionNotSupported)"

subsection \<open>The file and \<^verbatim>\<open>fs\<close>\<close>

text \<open>
  The file behind a descriptor is its length, its bytes by position, and the position of the
  descriptor, which is 0 when the file is opened and which only a read or a write at the
  current position moves. The two calls are those of Node's \<^verbatim>\<open>fs\<close>, as of Node 20.
  \<^verbatim>\<open>fs.read\<close> returns at once for length 0, refuses a length beyond the buffer and a
  position below \<open>-1\<close>, reads at the current position for \<open>-1\<close>, fills the buffer from the
  position up to the end of the file and leaves the rest of the buffer as it was.
  \<^verbatim>\<open>fs.write\<close> refuses a length beyond the buffer, writes at the current position for a
  negative position, writes nothing for length 0, and otherwise extends the file, with
  zeros in any gap. Byte counts are taken below \<open>2\<^sup>3\<^sup>1\<close>.
\<close>

record disk_file =
  fsize :: nat
  fdata :: "nat \<Rightarrow> byte"
  fpos :: nat

definition readAsync ::
  "disk_file \<Rightarrow> byte list \<Rightarrow> nat \<Rightarrow> int \<Rightarrow> error + byte list \<times> disk_file" where
  "readAsync f buffer len position =
     (if len = 0 then Inr (buffer, f)
      else if length buffer < len \<or> position < - 1 then Inl RangeError
      else let p = (if position = - 1 then fpos f else nat position)
           in Inr (map (\<lambda>i. if i < len \<and> p + i < fsize f then fdata f (p + i) else buffer ! i)
                     [0..<length buffer],
                   if position = - 1 then f\<lparr>fpos := p + min len (fsize f - p)\<rparr> else f))"

text \<open>The position a write lands at.\<close>

definition writePos :: "disk_file \<Rightarrow> int \<Rightarrow> nat" where
  "writePos f position = (if position < 0 then fpos f else nat position)"

definition writeAsync :: "disk_file \<Rightarrow> byte list \<Rightarrow> nat \<Rightarrow> int \<Rightarrow> error + disk_file" where
  "writeAsync f buffer len position =
     (if length buffer < len then Inl RangeError
      else if len = 0 then Inr f
      else let p = writePos f position
           in Inr \<lparr>fsize = max (fsize f) (p + len),
                   fdata = (\<lambda>i. if p \<le> i \<and> i < p + len then buffer ! (i - p)
                                 else if i < fsize f then fdata f i else 0),
                   fpos = (if position < 0 then p + len else fpos f)\<rparr>)"

text \<open>\<^verbatim>\<open>Buffer.alloc(n)\<close> and \<^verbatim>\<open>new Uint8Array(new ArrayBuffer(n))\<close>\<close>

definition alloc :: "nat \<Rightarrow> byte list" where
  "alloc n = replicate n 0"

subsection \<open>The integer readers and writers of \<^verbatim>\<open>Buffer\<close>\<close>

text \<open>
  The writers throw on a value out of range and store the integer part of the value they
  are given. Every buffer they meet here is long enough for the offset used.
\<close>

definition writeUint8 :: "byte list \<Rightarrow> nat \<Rightarrow> nat \<Rightarrow> error + byte list" where
  "writeUint8 buf v off =
     (if 255 < v \<or> length buf < off + 1 then Inl RangeError
      else Inr (buf[off := of_nat v]))"

definition writeUint16LE :: "byte list \<Rightarrow> nat \<Rightarrow> nat \<Rightarrow> error + byte list" where
  "writeUint16LE buf v off =
     (if 65535 < v \<or> length buf < off + 2 then Inl RangeError
      else Inr (buf[off := of_nat v, off + 1 := of_nat (v div 256)]))"

definition writeUint32LE :: "byte list \<Rightarrow> real \<Rightarrow> nat \<Rightarrow> error + byte list" where
  "writeUint32LE buf v off =
     (if 4294967295 < v \<or> v < 0 \<or> length buf < off + 4 then Inl RangeError
      else let n = nat \<lfloor>v\<rfloor> in
        Inr (buf[off := of_nat n, off + 1 := of_nat (n div 256),
                 off + 2 := of_nat (n div 65536), off + 3 := of_nat (n div 16777216)]))"

definition readUint8 :: "byte list \<Rightarrow> nat \<Rightarrow> nat" where
  "readUint8 buf off = unat (buf ! off)"

definition readUint16LE :: "byte list \<Rightarrow> nat \<Rightarrow> nat" where
  "readUint16LE buf off = unat (buf ! off) + unat (buf ! (off + 1)) * 256"

definition readUint32LE :: "byte list \<Rightarrow> nat \<Rightarrow> nat" where
  "readUint32LE buf off =
     unat (buf ! off) + unat (buf ! (off + 1)) * 256
     + unat (buf ! (off + 2)) * 65536 + unat (buf ! (off + 3)) * 16777216"

subsection \<open>The node codec\<close>

definition readUInt48LE :: "byte list \<Rightarrow> nat \<Rightarrow> nat" where
  "readUInt48LE buffer off =
     readUint32LE buffer (2 + off) * nat (shl1 16) + readUint16LE buffer off"

definition writeUInt48LE :: "byte list \<Rightarrow> nat \<Rightarrow> nat \<Rightarrow> error + byte list" where
  "writeUInt48LE data num off =
     (let lower = nat (toInt32 (int num) AND 65535);
          upper = real num / real_of_int (shl1 16)
      in case writeUint16LE data lower off of
           Inl e \<Rightarrow> Inl e
         | Inr data' \<Rightarrow> writeUint32LE data' upper (off + 2))"

subsection \<open>The store\<close>

text \<open>
  The fields of the class \<^verbatim>\<open>S2TilesStore\<close>; \<open>file_fd\<close> is the file behind the descriptor
  \<^verbatim>\<open>file\<close>, with the position of the descriptor. \<^verbatim>\<open>JSON.stringify\<close> is outside the
  model: \<open>commit\<close> is given the bytes of the JSON text of its metadata.
\<close>

record 'm S2TilesStore =
  file_fd :: disk_file
  isSetup :: bool
  offset :: nat
  maxzoom :: nat
  version :: nat
  compression :: Compression
  metadata :: "'m option"

text \<open>
  The constructor. The first argument is the file found at \<^verbatim>\<open>path\<close>, \<open>None\<close> when there is
  none and the constructor writes \<open>ROOT_SIZE\<close> zero bytes. The descriptor it opens is at
  position 0.
\<close>

definition new_S2TilesStore ::
  "disk_file option \<Rightarrow> nat option \<Rightarrow> Compression option \<Rightarrow> 'm S2TilesStore" where
  "new_S2TilesStore existing maxzoom_arg compression_arg =
     \<lparr>file_fd = (case existing of
                    None \<Rightarrow> \<lparr>fsize = ROOT_SIZE, fdata = (\<lambda>i. 0), fpos = 0\<rparr>
                  | Some f \<Rightarrow> f\<lparr>fpos := 0\<rparr>),
      isSetup = False,
      offset = ROOT_SIZE,
      maxzoom = (case maxzoom_arg of None \<Rightarrow> 0 | Some m \<Rightarrow> m),
      version = 1,
      compression = (case compression_arg of None \<Rightarrow> Gzip | Some c \<Rightarrow> c),
      metadata = None\<rparr>"

text \<open>
  An operation returns its outcome together with the store as the operation leaves it, also
  when it throws. The method \<^verbatim>\<open>setup\<close> is \<open>setupStore\<close> here.
\<close>

definition setupStore :: "'m codec \<Rightarrow> 'm S2TilesStore \<Rightarrow> (error + unit) \<times> 'm S2TilesStore" where
  "setupStore cd st =
     (if isSetup st then (Inr (), st)
      else let st0 = st\<lparr>isSetup := True\<rparr> in
        case readAsync (file_fd st0) (alloc ROOT_SIZE) ROOT_SIZE 0 of
          Inl e \<Rightarrow> (Inl e, st0)
        | Inr (data, f) \<Rightarrow>
            let st1 = st0\<lparr>file_fd := f\<rparr> in
            if readUint16LE data 0 \<noteq> 12883 then (Inl BadMetadata, st1)
            else let st2 = st1\<lparr>version := readUint16LE data 2,
                               maxzoom := readUint8 data 4,
                               compression := readUint8 data 5\<rparr>;
                     mL = readUint32LE data 6
              in if mL = 0 then (Inl FailedMetadata, st2)
                 else case decompress cd (drop 10 (take (10 + mL) data)) (compression st2) of
                        Inl e \<Rightarrow> (Inl e, st2)
                      | Inr meta_data \<Rightarrow>
                          (case jsonParse cd meta_data of
                             Inl e \<Rightarrow> (Inl e, st2)
                           | Inr m \<Rightarrow> (Inr (), st2\<lparr>metadata := Some m\<rparr>)))"

definition writeNode ::
  "int \<Rightarrow> nat \<times> nat \<Rightarrow> 'm S2TilesStore \<Rightarrow> (error + unit) \<times> 'm S2TilesStore" where
  "writeNode cursor node st =
     (case node of (off, len) \<Rightarrow>
        case writeUInt48LE (alloc NODE_SIZE) off 0 of
          Inl e \<Rightarrow> (Inl e, st)
        | Inr nodeBuf1 \<Rightarrow>
            case writeUint32LE nodeBuf1 (real len) 6 of
              Inl e \<Rightarrow> (Inl e, st)
            | Inr nodeBuf \<Rightarrow>
                case writeAsync (file_fd st) nodeBuf NODE_SIZE cursor of
                  Inl e \<Rightarrow> (Inl e, st)
                | Inr f \<Rightarrow> (Inr (), st\<lparr>file_fd := f\<rparr>))"

text \<open>
  \<^verbatim>\<open>_buildDirSize\<close>: the loop \<^verbatim>\<open>do { dirSize += pow(1 << remainder, 2) } while (remainder-- !== 0)\<close>
  never ends from a negative remainder, so its result is an option.
\<close>

partial_function (option) buildDirLoop :: "int \<Rightarrow> int \<Rightarrow> int option" where
  "buildDirLoop remainder dirSize =
     (if remainder \<noteq> 0
      then buildDirLoop (remainder - 1) (dirSize + (shl1 remainder)\<^sup>2)
      else Some (dirSize + (shl1 remainder)\<^sup>2))"

definition buildDirSize :: "nat \<Rightarrow> nat \<Rightarrow> nat option" where
  "buildDirSize depth mz =
     map_option (\<lambda>dirSize. nat dirSize * NODE_SIZE)
       (buildDirLoop (min (int mz - int depth) 5) 0)"

definition createLeafDir ::
  "int \<Rightarrow> nat \<Rightarrow> 'm S2TilesStore \<Rightarrow> ((error + nat) \<times> 'm S2TilesStore) option" where
  "createLeafDir cursor depth st =
     (case buildDirSize depth (maxzoom st) of
        None \<Rightarrow> None
      | Some dirSize \<Rightarrow>
          let off = offset st in
          Some (case writeAsync (file_fd st) (alloc dirSize) dirSize (int off) of
                  Inl e \<Rightarrow> (Inl e, st)
                | Inr f \<Rightarrow>
                    (case writeNode cursor (off, dirSize)
                            (st\<lparr>file_fd := f, offset := off + dirSize\<rparr>) of
                       (Inl e, st2) \<Rightarrow> (Inl e, st2)
                     | (Inr u, st2) \<Rightarrow> (Inr off, st2))))"

text \<open>
  The loop of \<^verbatim>\<open>#walk\<close> over the path; \<open>mz\<close> is the \<^verbatim>\<open>maxzoom\<close> read before the loop,
  \<open>leafNode\<close> the one buffer every read of the loop fills. Without \<open>create\<close>, a missing
  leaf directory makes the walk return 0.
\<close>

fun walkLoop ::
  "bool \<Rightarrow> nat \<Rightarrow> nat \<Rightarrow> int list \<Rightarrow> byte list \<Rightarrow> int \<Rightarrow> nat \<Rightarrow> 'm S2TilesStore
   \<Rightarrow> ((error + int) \<times> 'm S2TilesStore) option" where
  "walkLoop create zoom mz [] leafNode cursor depth st = Some (Inr cursor, st)"
| "walkLoop create zoom mz (shift # path) leafNode cursor depth st =
     (let depth' = depth + 1;
          cursor' = cursor + shift * int NODE_SIZE
      in if path \<noteq> [] then
           if mz mod 5 = 0 \<and> length path = 1 \<and> zoom = mz \<and> path ! 0 = 0
           then Some (Inr cursor', st)
           else case readAsync (file_fd st) leafNode NODE_SIZE cursor' of
                  Inl e \<Rightarrow> Some (Inl e, st)
                | Inr (leafNode', f) \<Rightarrow>
                    let st1 = st\<lparr>file_fd := f\<rparr>;
                        leaf = readUInt48LE leafNode' 0 in
                    if leaf = 0 then
                      if create then
                        (case createLeafDir cursor' (depth' * 5) st1 of
                           None \<Rightarrow> None
                         | Some (Inl e, st') \<Rightarrow> Some (Inl e, st')
                         | Some (Inr c, st') \<Rightarrow>
                             walkLoop create zoom mz path leafNode' (int c) depth' st')
                      else Some (Inr 0, st1)
                    else walkLoop create zoom mz path leafNode' (int leaf) depth' st1
         else walkLoop create zoom mz path leafNode cursor' depth' st)"

definition walk ::
  "nat \<Rightarrow> nat \<Rightarrow> int \<Rightarrow> int \<Rightarrow> bool \<Rightarrow> 'm S2TilesStore
   \<Rightarrow> ((error + int) \<times> 'm S2TilesStore) option" where
  "walk face zoom x y create st =
     walkLoop create zoom (maxzoom st) (getS2TilePath zoom x y) (alloc NODE_SIZE)
       (int (METADATA_SIZE + face * DIR_SIZE)) 0 st"

text \<open>
  \<^verbatim>\<open>hasTileS2\<close> and \<^verbatim>\<open>getTileS2\<close>. Their test \<^verbatim>\<open>cursor === undefined\<close> is never true, since
  \<^verbatim>\<open>#walk\<close> returns a number on every path, so the branch it guards has no counterpart
  here. The result of \<^verbatim>\<open>getTileS2\<close> is an option, \<open>None\<close> for \<^verbatim>\<open>undefined\<close>.
\<close>

definition hasTileS2 ::
  "'m codec \<Rightarrow> nat \<Rightarrow> nat \<Rightarrow> int \<Rightarrow> int \<Rightarrow> 'm S2TilesStore
   \<Rightarrow> ((error + bool) \<times> 'm S2TilesStore) option" where
  "hasTileS2 cd face zoom x y st =
     (case setupStore cd st of
        (Inl e, st1) \<Rightarrow> Some (Inl e, st1)
      | (Inr u, st1) \<Rightarrow>
          (case walk face zoom x y False st1 of
             None \<Rightarrow> None
           | Some (Inl e, st2) \<Rightarrow> Some (Inl e, st2)
           | Some (Inr cursor, st2) \<Rightarrow>
               (case readAsync (file_fd st2) (alloc NODE_SIZE) NODE_SIZE cursor of
                  Inl e \<Rightarrow> Some (Inl e, st2)
                | Inr (node, f) \<Rightarrow>
                    Some (Inr (readUInt48LE node 0 \<noteq> 0 \<and> readUint32LE node 6 \<noteq> 0),
                          st2\<lparr>file_fd := f\<rparr>))))"

definition getTileS2 ::
  "'m codec \<Rightarrow> nat \<Rightarrow> nat \<Rightarrow> int \<Rightarrow> int \<Rightarrow> 'm S2TilesStore
   \<Rightarrow> ((error + byte list option) \<times> 'm S2TilesStore) option" where
  "getTileS2 cd face zoom x y st =
     (case setupStore cd st of
        (Inl e, st1) \<Rightarrow> Some (Inl e, st1)
      | (Inr u, st1) \<Rightarrow>
          (case walk face zoom x y False st1 of
             None \<Rightarrow> None
           | Some (Inl e, st2) \<Rightarrow> Some (Inl e, st2)
           | Some (Inr cursor, st2) \<Rightarrow>
               (case readAsync (file_fd st2) (alloc NODE_SIZE) NODE_SIZE cursor of
                  Inl e \<Rightarrow> Some (Inl e, st2)
                | Inr (node, f) \<Rightarrow>
                    let st3 = st2\<lparr>file_fd := f\<rparr>;
                        off = readUInt48LE node 0; len = readUint32LE node 6 in
                    (case readAsync (file_fd st3) (alloc len) len (int off) of
                       Inl e \<Rightarrow> Some (Inl e, st3)
                     | Inr (data, f') \<Rightarrow>
                         (case decompress cd data (compression st1) of
                            Inl e \<Rightarrow> Some (Inl e, st3\<lparr>file_fd := f'\<rparr>)
                          | Inr tile \<Rightarrow> Some (Inr (Some tile), st3\<lparr>file_fd := f'\<rparr>))))))"

text \<open>
  \<^verbatim>\<open>commit\<close>, given the bytes of \<^verbatim>\<open>JSON.stringify(metadata)\<close>. Its statements before the
  two writes to the file touch no state: \<open>commitBuffers\<close> runs them in the order of the
  source, the first one that throws ending the sequence (\<open>thenE\<close>), and returns the
  ten-byte preamble and the compressed metadata.
\<close>

definition thenE :: "error + 'a \<Rightarrow> ('a \<Rightarrow> error + 'b) \<Rightarrow> error + 'b" where
  "thenE r k = (case r of Inl e \<Rightarrow> Inl e | Inr v \<Rightarrow> k v)"

definition commitBuffers ::
  "'m codec \<Rightarrow> byte list \<Rightarrow> Compression option \<Rightarrow> 'm S2TilesStore
   \<Rightarrow> error + byte list \<times> byte list" where
  "commitBuffers cd metadata_json tileCompression st =
     thenE (writeUint8 (alloc 10) 83 0) (\<lambda>d1.
     thenE (writeUint8 d1 50 1) (\<lambda>d2.
     thenE (writeUint16LE d2 (version st) 2) (\<lambda>d3.
     thenE (writeUint8 d3 (maxzoom st) 4) (\<lambda>d4.
     thenE (writeUint8 d4 (case tileCompression of None \<Rightarrow> compression st | Some c \<Rightarrow> c) 5) (\<lambda>d5.
     thenE (compress cd metadata_json (compression st)) (\<lambda>metaBuffer.
     if METADATA_SIZE - 10 < length metaBuffer then Inl MetadataTooLarge
     else thenE (writeUint32LE d5 (real (length metaBuffer)) 6) (\<lambda>data.
          Inr (data, metaBuffer))))))))"

definition commit ::
  "'m codec \<Rightarrow> byte list \<Rightarrow> Compression option \<Rightarrow> 'm S2TilesStore
   \<Rightarrow> (error + unit) \<times> 'm S2TilesStore" where
  "commit cd metadata_json tileCompression st =
     (case commitBuffers cd metadata_json tileCompression st of
        Inl e \<Rightarrow> (Inl e, st)
      | Inr (data, metaBuffer) \<Rightarrow>
          (case writeAsync (file_fd st) data 10 0 of
             Inl e \<Rightarrow> (Inl e, st)
           | Inr f1 \<Rightarrow>
               (case writeAsync f1 metaBuffer (length metaBuffer) 10 of
                  Inl e \<Rightarrow> (Inl e, st\<lparr>file_fd := f1\<rparr>)
                | Inr f2 \<Rightarrow> (Inr (), st\<lparr>file_fd := f2\<rparr>))))"

definition putNodeInDir ::
  "nat \<Rightarrow> nat \<Rightarrow> int \<Rightarrow> int \<Rightarrow> nat \<times> nat \<Rightarrow> 'm S2TilesStore
   \<Rightarrow> ((error + unit) \<times> 'm S2TilesStore) option" where
  "putNodeInDir face zoom x y node st =
     (case walk face zoom x y True st of
        None \<Rightarrow> None
      | Some (Inl e, st1) \<Rightarrow> Some (Inl e, st1)
      | Some (Inr cursor, st1) \<Rightarrow> Some (writeNode cursor node st1))"

definition putTile ::
  "'m codec \<Rightarrow> nat \<Rightarrow> nat \<Rightarrow> int \<Rightarrow> int \<Rightarrow> byte list \<Rightarrow> 'm S2TilesStore
   \<Rightarrow> ((error + unit) \<times> 'm S2TilesStore) option" where
  "putTile cd face zoom x y data st =
     (let len = length data;
          node = (offset st, len)
      in case compress cd data (compression st) of
           Inl e \<Rightarrow> Some (Inl e, st)
         | Inr data' \<Rightarrow>
             (case writeAsync (file_fd st) data' len (int (offset st)) of
                Inl e \<Rightarrow> Some (Inl e, st)
              | Inr f \<Rightarrow>
                  putNodeInDir face zoom x y node
                    (st\<lparr>file_fd := f, offset := offset st + len\<rparr>)))"

subsection \<open>Notions used in the statements and proofs\<close>

text \<open>
  The file after a write of a whole buffer at a position of the file, the file after such a
  write at a position as \<^verbatim>\<open>fs.write\<close> takes it, and the bytes a zero-filled buffer receives
  from a read.
\<close>

definition fwrite :: "disk_file \<Rightarrow> nat \<Rightarrow> byte list \<Rightarrow> disk_file" where
  "fwrite f p buf =
     \<lparr>fsize = max (fsize f) (p + length buf),
      fdata = (\<lambda>i. if p \<le> i \<and> i < p + length buf then buf ! (i - p)
                    else if i < fsize f then fdata f i else 0),
      fpos = fpos f\<rparr>"


definition fread :: "disk_file \<Rightarrow> nat \<Rightarrow> nat \<Rightarrow> byte list" where
  "fread f p n = map (\<lambda>i. if i < fsize f then fdata f i else 0) [p..<p + n]"

text \<open>The ten bytes of the node record \<open>(off, len)\<close>.\<close>

definition nodeBytes :: "nat \<Rightarrow> nat \<Rightarrow> byte list" where
  "nodeBytes off len =
     [of_nat (off mod 65536), of_nat (off mod 65536 div 256),
      of_nat (off div 65536), of_nat (off div 65536 div 256),
      of_nat (off div 65536 div 65536), of_nat (off div 65536 div 16777216),
      of_nat len, of_nat (len div 256), of_nat (len div 65536), of_nat (len div 16777216)]"

text \<open>The node record a read of ten bytes at a cursor decodes to.\<close>

definition nodeAt :: "disk_file \<Rightarrow> nat \<Rightarrow> nat \<times> nat" where
  "nodeAt f c = (readUInt48LE (fread f c 10) 0, readUint32LE (fread f c 10) 6)"

text \<open>\<^verbatim>\<open>TextEncoder.encode\<close> on ASCII text\<close>

definition utf8 :: "string \<Rightarrow> byte list" where
  "utf8 s = map (\<lambda>c. of_nat (of_char c)) s"

text \<open>The metadata of the scenario WM small, \<^verbatim>\<open>{"metadata":true}\<close>.\<close>

definition wm_meta :: "byte list" where
  "wm_meta = utf8 (''{'' @ [CHR 0x22] @ ''metadata'' @ [CHR 0x22] @ '':true}'')"

text \<open>
  A stand-in for the platform at concrete inputs. Each compressor puts a two-byte mark
  before the data, each decompressor takes it off and rejects data without it. The parser
  reads the text \<^verbatim>\<open>{"metadata":true}\<close> as the object of that one member, given as the list
  of its members, and rejects every other byte string; those it meets here start with a
  mark of a compressor and are not JSON.
\<close>

definition unframe :: "byte \<Rightarrow> byte \<Rightarrow> byte list \<Rightarrow> error + byte list" where
  "unframe m1 m2 data =
     (case data of
        a # b # rest \<Rightarrow> if a = m1 \<and> b = m2 then Inr rest else Inl CodecError
      | _ \<Rightarrow> Inl CodecError)"

definition frame_codec :: "(string \<times> bool) list codec" where
  "frame_codec =
     \<lparr>gzip = (\<lambda>data. Inr (31 # 139 # data)),
      gunzip = unframe 31 139,
      brotliCompress = (\<lambda>data. Inr (206 # 178 # data)),
      brotliDecompress = unframe 206 178,
      jsonParse = (\<lambda>data. if data = wm_meta then Inr [(''metadata'', True)]
                           else Inl SyntaxError)\<rparr>"



text \<open>The ten bytes \<^verbatim>\<open>commit\<close> writes at offset 0.\<close>

definition headerBytes :: "nat \<Rightarrow> nat \<Rightarrow> nat \<Rightarrow> nat \<Rightarrow> byte list" where
  "headerBytes v mz kind l =
     [83, 50, of_nat v, of_nat (v div 256), of_nat mz, of_nat kind,
      of_nat l, of_nat (l div 256), of_nat (l div 65536), of_nat (l div 16777216)]"

text \<open>
  The files of the scenario WM small: a new archive, after each of its three tiles, and
  after the commit; and the store of a reader of the committed archive once it is set up,
  with the metadata as \<^verbatim>\<open>JSON.parse\<close> returned it.
\<close>

definition wm_f0 :: disk_file where
  "wm_f0 = \<lparr>fsize = 212972, fdata = (\<lambda>i. 0), fpos = 0\<rparr>"

definition wm_f1 :: disk_file where
  "wm_f1 = fwrite (fwrite wm_f0 212972 (utf8 ''hello world'')) 131072 (nodeBytes 212972 11)"

definition wm_f2 :: disk_file where
  "wm_f2 = fwrite (fwrite wm_f1 212983 (utf8 ''hello world'')) 131102 (nodeBytes 212983 11)"

definition wm_f3 :: disk_file where
  "wm_f3 =
     fwrite (fwrite (fwrite (fwrite wm_f2 212994 (utf8 ''hello world 2'')) 213007 (alloc 3410))
       137582 (nodeBytes 213007 3410)) 213857 (nodeBytes 212994 13)"

definition wm_f4 :: disk_file where
  "wm_f4 = fwrite (fwrite wm_f3 0 (headerBytes 1 9 NoneC 17)) 10 wm_meta"

definition wm_rd :: "'m \<Rightarrow> 'm S2TilesStore" where
  "wm_rd j =
     \<lparr>file_fd = wm_f4, isSetup = True, offset = 212972, maxzoom = 9, version = 1,
      compression = NoneC, metadata = Some j\<rparr>"

text \<open>
  The files of a second scenario: a new archive with maxzoom 9 and the default compression,
  gzip, after the tile \<^verbatim>\<open>hello world 2\<close> at \<open>(0, 9, 22, 9)\<close> under the stand-in codec, and
  after the commit of the same metadata; and the store of a reader of it.
\<close>

definition gz_f1 :: disk_file where
  "gz_f1 =
     fwrite (fwrite (fwrite (fwrite wm_f0 212972 (31 # 139 # utf8 ''hello world'')) 212985 (alloc 3410))
       137582 (nodeBytes 212985 3410)) 213835 (nodeBytes 212972 13)"

definition gz_f2 :: disk_file where
  "gz_f2 = fwrite (fwrite gz_f1 0 (headerBytes 1 9 Gzip 19)) 10 (31 # 139 # wm_meta)"


text \<open>The path length and the first path element as the specification words them.\<close>

definition spec_path_length :: "nat \<Rightarrow> nat" where
  "spec_path_length zoom = (if zoom = 0 then 1 else (zoom + 4) div 5 + 1)"

definition spec_residual_slice :: "nat \<Rightarrow> int \<Rightarrow> int \<Rightarrow> nat \<times> int \<times> int" where
  "spec_residual_slice zoom x y =
     (zoom mod 5, x div 32 ^ (zoom div 5), y div 32 ^ (zoom div 5))"

definition sliceIndex :: "nat \<times> int \<times> int \<Rightarrow> int" where
  "sliceIndex s = (case s of (z, xi, yi) \<Rightarrow> slotIndex z xi yi)"

section \<open>Lemmas\<close>

subsection \<open>Constants, the 32-bit operators, bytes and files\<close>

lemma const_vals: "NODE_SIZE = 10" "DIR_SIZE = 13650" "METADATA_SIZE = 131072" "ROOT_DIR_SIZE = 81900" "ROOT_SIZE = 212972"
  by (simp_all add: NODE_SIZE_def DIR_SIZE_def METADATA_SIZE_def ROOT_DIR_SIZE_def ROOT_SIZE_def)

lemma toInt32_id: "- 2147483648 \<le> v \<Longrightarrow> v < 2147483648 \<Longrightarrow> toInt32 v = v"
  by (simp add: toInt32_def)

lemma and31_mod: "0 \<le> v \<Longrightarrow> v < 2147483648 \<Longrightarrow> and31 v = v mod 32"
proof -
  assume a: "0 \<le> v" "v < 2147483648"
  have "v AND 31 = v AND mask 5" by (simp add: mask_eq_exp_minus_1)
  also have "\<dots> = v mod 2 ^ 5" by (simp add: and_mask_mod_2p take_bit_eq_mod flip: take_bit_eq_mask)
  finally show ?thesis using a by (simp add: and31_def toInt32_id)
qed

lemma shr5_div: "0 \<le> v \<Longrightarrow> v < 2147483648 \<Longrightarrow> shr5 v = v div 32"
  by (simp add: shr5_def toInt32_id drop_bit_eq_div)

lemma shl1_pow: "z \<le> 30 \<Longrightarrow> shl1 (int z) = 2 ^ z"
proof -
  assume a: "z \<le> 30"
  have "(2::int) ^ z \<le> 2 ^ 30" using a by (intro power_increasing) auto
  then have "(2::int) ^ z \<le> 1073741824" by simp
  moreover have "(0::int) \<le> 2 ^ z" by simp
  ultimately have "toInt32 (2 ^ z) = 2 ^ z" by (intro toInt32_id) linarith+
  moreover have "int z mod 32 = int z" using a by simp
  ultimately show ?thesis by (simp add: shl1_def push_bit_eq_mult)
qed

lemma shl1_16: "shl1 16 = 65536"
  using shl1_pow [of 16] by simp

lemma toInt32_mod: "toInt32 v mod 65536 = v mod 65536"
proof -
  have "toInt32 v = v - 4294967296 * ((v + 2147483648) div 4294967296)"
    by (simp add: toInt32_def minus_mult_div_eq_mod [symmetric])
  then obtain k where k: "toInt32 v = v - 65536 * (65536 * k)" by simp
  have "(v - 65536 * (65536 * k)) mod 65536 = (v mod 65536 - 65536 * (65536 * k) mod 65536) mod 65536"
    by (rule mod_diff_eq [symmetric])
  then show ?thesis unfolding k by simp
qed

lemma low16: "nat (toInt32 (int n) AND 65535) = n mod 65536"
proof -
  have "toInt32 (int n) AND 65535 = toInt32 (int n) AND mask 16" by (simp add: mask_eq_exp_minus_1)
  also have "\<dots> = toInt32 (int n) mod 2 ^ 16" by (simp add: take_bit_eq_mod flip: take_bit_eq_mask)
  also have "\<dots> = int n mod 65536" by (simp add: toInt32_mod)
  finally have "toInt32 (int n) AND 65535 = int (n mod 65536)" by (simp add: zmod_int)
  then show ?thesis by simp
qed

lemma length_fread [simp]: "length (fread f p n) = n"
  by (simp add: fread_def)

lemma fsize_fwrite [simp]: "fsize (fwrite f p buf) = max (fsize f) (p + length buf)"
  by (simp add: fwrite_def)

lemma fpos_fwrite [simp]: "fpos (fwrite f p buf) = fpos f"
  by (simp add: fwrite_def)

lemma fpos_reset: "fpos f = 0 \<Longrightarrow> f\<lparr>fpos := 0\<rparr> = f"
  by (cases f) simp

lemma writeAsync_fwrite:
  "0 \<le> c \<Longrightarrow> 0 < len \<Longrightarrow> len \<le> length buf \<Longrightarrow>
   writeAsync f buf len c = Inr (fwrite f (nat c) (take len buf))"
  by (auto simp: writeAsync_def writePos_def fwrite_def fun_eq_iff Let_def)


lemma readAsync_alloc:
  "0 \<le> c \<Longrightarrow> readAsync f (alloc n) n c = Inr (fread f (nat c) n, f)"
  by (auto simp: readAsync_def fread_def alloc_def Let_def intro!: nth_equalityI)

lemma readAsync_inside:
  "0 \<le> c \<Longrightarrow> length buf = n \<Longrightarrow> nat c + n \<le> fsize f \<Longrightarrow>
   readAsync f buf n c = Inr (fread f (nat c) n, f)"
  by (auto simp: readAsync_def fread_def Let_def intro!: nth_equalityI)

lemma fread_fwrite_disjoint:
  "c + n \<le> p \<or> p + length buf \<le> c \<Longrightarrow> fread (fwrite f p buf) c n = fread f c n"
  by (auto simp: fread_def fwrite_def)

lemma fread_fwrite_same:
  "p \<le> c \<Longrightarrow> c + n \<le> p + length buf \<Longrightarrow>
   fread (fwrite f p buf) c n = take n (drop (c - p) buf)"
  by (auto simp: fread_def fwrite_def intro!: nth_equalityI)

lemma fread_zero:
  "fread \<lparr>fsize = s, fdata = (\<lambda>i. 0), fpos = q\<rparr> c n = replicate n 0"
  by (auto simp: fread_def intro!: nth_equalityI)

lemma unat_byte: "unat (of_nat n :: byte) = n mod 256"
  by (simp add: unat_of_nat)

lemma length_nodeBytes [simp]: "length (nodeBytes off len) = 10"
  by (simp add: nodeBytes_def)

lemma le16: "n < 65536 \<Longrightarrow> n mod 256 + n div 256 mod 256 * 256 = (n::nat)"
proof -
  assume "n < 65536"
  then have "n div 256 < 256" by simp
  then show ?thesis by simp
qed

lemma le32:
  "n < 4294967296 \<Longrightarrow>
   n mod 256 + n div 256 mod 256 * 256 + n div 65536 mod 256 * 65536
   + n div 16777216 mod 256 * 16777216 = (n::nat)"
proof -
  assume a: "n < 4294967296"
  have d1: "n div 65536 = n div 256 div 256" and d2: "n div 16777216 = n div 256 div 256 div 256"
    by (simp_all add: div_mult2_eq [symmetric])
  have "n div 16777216 < 256" using a by simp
  then have m: "n div 16777216 mod 256 = n div 256 div 256 div 256" by (simp add: d2)
  have e1: "n = n div 256 * 256 + n mod 256" by simp
  have e2: "n div 256 = n div 256 div 256 * 256 + n div 256 mod 256" by simp
  have e3: "n div 256 div 256 = n div 256 div 256 div 256 * 256 + n div 256 div 256 mod 256" by simp
  show ?thesis unfolding m d1 using e1 e2 e3 by linarith
qed

lemma nth_nodeBytes:
  "nodeBytes off len ! 0 = of_nat (off mod 65536)"
  "nodeBytes off len ! 1 = of_nat (off mod 65536 div 256)"
  "nodeBytes off len ! 2 = of_nat (off div 65536)"
  "nodeBytes off len ! 3 = of_nat (off div 65536 div 256)"
  "nodeBytes off len ! 4 = of_nat (off div 65536 div 65536)"
  "nodeBytes off len ! 5 = of_nat (off div 65536 div 16777216)"
  "nodeBytes off len ! 6 = of_nat len"
  "nodeBytes off len ! 7 = of_nat (len div 256)"
  "nodeBytes off len ! 8 = of_nat (len div 65536)"
  "nodeBytes off len ! 9 = of_nat (len div 16777216)"
  by (simp_all add: nodeBytes_def)

lemma read32_nodeBytes: "len < 4294967296 \<Longrightarrow> readUint32LE (nodeBytes off len) 6 = len"
proof -
  assume a: "len < 4294967296"
  have "readUint32LE (nodeBytes off len) 6 =
     len mod 256 + len div 256 mod 256 * 256 + len div 65536 mod 256 * 65536
       + len div 16777216 mod 256 * 16777216"
    unfolding readUint32LE_def by (simp only: nth_nodeBytes unat_byte numeral_plus_numeral numeral_plus_one add_num_simps arith_simps)
  then show ?thesis using le32 [OF a] by (simp only:)
qed

lemma read48_nodeBytes: "off < 281474976710656 \<Longrightarrow> readUInt48LE (nodeBytes off len) 0 = off"
proof -
  assume a: "off < 281474976710656"
  then have h: "off div 65536 < 4294967296" by simp
  have l: "off mod 65536 < 65536" by simp
  have "readUint32LE (nodeBytes off len) (2 + 0) =
     off div 65536 mod 256 + off div 65536 div 256 mod 256 * 256
       + off div 65536 div 65536 mod 256 * 65536 + off div 65536 div 16777216 mod 256 * 16777216"
    unfolding readUint32LE_def by (simp only: nth_nodeBytes unat_byte numeral_plus_numeral numeral_plus_one add_num_simps arith_simps add_0_right)
  then have u: "readUint32LE (nodeBytes off len) (2 + 0) = off div 65536" using le32 [OF h] by (simp only:)
  have "readUint16LE (nodeBytes off len) 0 = off mod 65536 mod 256 + off mod 65536 div 256 mod 256 * 256"
    unfolding readUint16LE_def by (simp only: nth_nodeBytes unat_byte add_0 One_nat_def [symmetric])
  then have v: "readUint16LE (nodeBytes off len) 0 = off mod 65536" using le16 [OF l] by (simp only:)
  show ?thesis unfolding readUInt48LE_def u v shl1_16 by simp
qed

lemma length_alloc [simp]: "length (alloc n) = n"
  by (simp add: alloc_def)

lemma fread_0: "fread f p 0 = []"
  by (simp add: fread_def)

lemma replicate10: "replicate 10 x = [x, x, x, x, x, x, x, x, x, x]"
  by (simp add: eval_nat_numeral)

lemma read48_zero: "readUInt48LE (replicate 10 0) 0 = 0"
  by (simp add: replicate10 readUInt48LE_def readUint32LE_def readUint16LE_def)

lemma read32_zero: "readUint32LE (replicate 10 0) 6 = 0"
  by (simp add: replicate10 readUint32LE_def)

lemma putTile_NoneC:
  assumes "compression st = NoneC" "data \<noteq> []"
  shows "putTile cd face zoom x y data st =
     putNodeInDir face zoom x y (offset st, length data)
       (st\<lparr>file_fd := fwrite (file_fd st) (offset st) data, offset := offset st + length data\<rparr>)"
  using assms by (simp add: putTile_def compress_def Let_def writeAsync_fwrite)


subsection \<open>The path encoder\<close>

lemma slices_rec:
  "5 \<le> zoom \<Longrightarrow> slices zoom x y = (5, and31 x, and31 y) # slices (zoom - 5) (shr5 x) (shr5 y)"
  by (subst slices.simps) simp

lemma slices_base: "zoom < 5 \<Longrightarrow> slices zoom x y = [(zoom, x, y)]"
  by (subst slices.simps) simp

lemma length_slices: "length (slices zoom x y) = zoom div 5 + 1"
proof (induction zoom x y rule: slices.induct)
  case (1 zoom x y)
  show ?case
  proof (cases "5 \<le> zoom")
    case True
    then have "length (slices zoom x y) = Suc (length (slices (zoom - 5) (shr5 x) (shr5 y)))"
      by (simp add: slices_rec)
    also have "\<dots> = Suc ((zoom - 5) div 5 + 1)" using 1 True by simp
    also have "\<dots> = zoom div 5 + 1" using True by (simp add: le_div_geq)
    finally show ?thesis .
  next
    case False
    then show ?thesis by (simp add: slices_base)
  qed
qed

lemma slices_closed:
  "0 \<le> x \<Longrightarrow> x < 2147483648 \<Longrightarrow> 0 \<le> y \<Longrightarrow> y < 2147483648 \<Longrightarrow>
   slices zoom x y =
     map (\<lambda>i. (5, x div 32 ^ i mod 32, y div 32 ^ i mod 32)) [0..<zoom div 5]
     @ [(zoom mod 5, x div 32 ^ (zoom div 5), y div 32 ^ (zoom div 5))]"
proof (induction zoom x y rule: slices.induct)
  case (1 zoom x y)
  show ?case
  proof (cases "5 \<le> zoom")
    case False
    then show ?thesis by (simp add: slices_base)
  next
    case True
    have sx: "shr5 x = x div 32" and sy: "shr5 y = y div 32"
      using 1(2-5) by (simp_all add: shr5_div)
    have bx: "0 \<le> x div 32" "x div 32 < 2147483648" "0 \<le> y div 32" "y div 32 < 2147483648"
      using 1(2-5) by auto
    have d: "zoom div 5 = Suc ((zoom - 5) div 5)" and m: "(zoom - 5) mod 5 = zoom mod 5"
      using True by (simp_all add: le_div_geq le_mod_geq)
    have IH: "slices (zoom - 5) (x div 32) (y div 32) =
       map (\<lambda>i. (5, x div 32 div 32 ^ i mod 32, y div 32 div 32 ^ i mod 32)) [0..<(zoom - 5) div 5]
       @ [((zoom - 5) mod 5, x div 32 div 32 ^ ((zoom - 5) div 5), y div 32 div 32 ^ ((zoom - 5) div 5))]"
      using 1(1) [OF True] bx True by (simp add: sx sy)
    have dd: "\<And>v::int. \<And>i. v div 32 div 32 ^ i = v div 32 ^ Suc i"
      by (simp add: zdiv_zmult2_eq)
    show ?thesis
      unfolding slices_rec [OF True] sx sy IH d m dd
      using 1(2-5) by (simp add: and31_mod map_upt_Suc del: upt_Suc power_Suc)
  qed
qed

lemma levelLoop_sum: "z \<le> 31 \<Longrightarrow> levelLoop z val = val + (\<Sum>k<z. 4 ^ k)"
proof (induction z arbitrary: val)
  case 0
  then show ?case by simp
next
  case (Suc z)
  have "(shl1 (int z))\<^sup>2 = 4 ^ z"
    using Suc.prems by (simp add: shl1_pow power2_eq_square flip: power_mult_distrib)
  then show ?case using Suc by simp
qed

lemma level_starts: "z \<le> 5 \<Longrightarrow> (\<Sum>k<z. (4::int) ^ k) = [0, 1, 5, 21, 85, 341] ! z"
proof -
  assume "z \<le> 5"
  then consider "z = 0" | "z = 1" | "z = 2" | "z = 3" | "z = 4" | "z = 5" by linarith
  then show ?thesis by cases (simp_all add: eval_nat_numeral lessThan_Suc)
qed

lemma slotIndex_eq: "z \<le> 30 \<Longrightarrow> slotIndex z xi yi = yi * 2 ^ z + xi + (\<Sum>k<z. 4 ^ k)"
  by (simp add: slotIndex_def levelLoop_sum shl1_pow)

lemma path_0_0_0: "getS2TilePath 0 0 0 = [0]"
  by (simp add: getS2TilePath_def slices_base slotIndex_eq)

lemma path_1_0_1: "getS2TilePath (Suc 0) 0 1 = [3]"
  by (simp add: getS2TilePath_def slices_base slotIndex_eq)

lemma path_1_1_1: "getS2TilePath (Suc 0) 1 1 = [4]"
  by (simp add: getS2TilePath_def slices_base slotIndex_eq)

lemma path_5_0_0: "getS2TilePath 5 0 0 = [341, 0]"
  by (simp add: getS2TilePath_def slices_closed slotIndex_eq level_starts)

lemma path_5_1_0: "getS2TilePath 5 1 0 = [342, 0]"
  by (simp add: getS2TilePath_def slices_closed slotIndex_eq level_starts)

lemma path_9_22_9: "getS2TilePath 9 22 9 = [651, 85]"
  by (simp add: getS2TilePath_def slices_closed slotIndex_eq level_starts)


subsection \<open>The node codec and the directory sizes\<close>

lemma alloc10: "alloc 10 = [0, 0, 0, 0, 0, 0, 0, 0, 0, 0]"
  by (simp add: alloc_def eval_nat_numeral)

lemma upd10:
  "[z0, z1, z2, z3, z4, z5, z6, z7, z8, z9][0 := a, 1 := b] = [a, b, z2, z3, z4, z5, z6, z7, z8, z9]"
  "[z0, z1, z2, z3, z4, z5, z6, z7, z8, z9][2 := c, 3 := d, 4 := e, 5 := f] = [z0, z1, c, d, e, f, z6, z7, z8, z9]"
  "[z0, z1, z2, z3, z4, z5, z6, z7, z8, z9][6 := g, 7 := h, 8 := i, 9 := j] = [z0, z1, z2, z3, z4, z5, g, h, i, j]"
  "[z0, z1, z2, z3, z4, z5, z6, z7, z8, z9][4 := e] = [z0, z1, z2, z3, e, z5, z6, z7, z8, z9]"
  "[z0, z1, z2, z3, z4, z5, z6, z7, z8, z9][5 := f] = [z0, z1, z2, z3, z4, f, z6, z7, z8, z9]"
  "[z0, z1, z2, z3, z4, z5, z6, z7, z8, z9][0 := a] = [a, z1, z2, z3, z4, z5, z6, z7, z8, z9]"
  "[z0, z1, z2, z3, z4, z5, z6, z7, z8, z9][1 := b] = [z0, b, z2, z3, z4, z5, z6, z7, z8, z9]"
  "[z0, z1, z2, z3, z4, z5, z6, z7, z8, z9][2 := c, 3 := d] = [z0, z1, c, d, z4, z5, z6, z7, z8, z9]"
  by (simp_all add: eval_nat_numeral)

lemma floor_div_65536: "nat \<lfloor>real n / 65536\<rfloor> = n div 65536"
proof -
  have "\<lfloor>real n / real 65536\<rfloor> = int (n div 65536)" by (rule floor_divide_of_nat_eq)
  then show ?thesis by simp
qed

lemma writeUInt48LE_alloc:
  assumes "off \<le> 281474976645120"
  shows "writeUInt48LE (alloc 10) off 0 =
     Inr [of_nat (off mod 65536), of_nat (off mod 65536 div 256),
          of_nat (off div 65536), of_nat (off div 65536 div 256),
          of_nat (off div 65536 div 65536), of_nat (off div 65536 div 16777216), 0, 0, 0, 0]"
proof -
  have lo: "nat (toInt32 (int off) AND 65535) = off mod 65536" by (rule low16)
  have r: "\<not> 65535 < off mod 65536" by (simp add: not_less)
  have w16: "writeUint16LE (alloc 10) (off mod 65536) 0 =
     Inr [of_nat (off mod 65536), of_nat (off mod 65536 div 256), 0, 0, 0, 0, 0, 0, 0, 0]"
    unfolding writeUint16LE_def alloc10 using r by (simp add: upd10)
  have up: "\<not> 4294967295 < real off / 65536" using assms by (simp add: not_less field_simps)
  have nn: "\<not> real off / 65536 < 0" by simp
  have w32: "writeUint32LE [of_nat (off mod 65536), of_nat (off mod 65536 div 256), 0, 0, 0, 0, 0, 0, 0, 0]
       (real off / 65536) (0 + 2) =
     Inr [of_nat (off mod 65536), of_nat (off mod 65536 div 256),
          of_nat (off div 65536), of_nat (off div 65536 div 256),
          of_nat (off div 65536 div 65536), of_nat (off div 65536 div 16777216), 0, 0, 0, 0]"
    unfolding writeUint32LE_def using up nn by (simp add: floor_div_65536 upd10 Let_def)
  show ?thesis
    unfolding writeUInt48LE_def lo shl1_16 Let_def w16 using w32 by simp
qed

lemma encode_node:
  assumes "off \<le> 281474976645120" "len \<le> 4294967295"
  shows "thenE (writeUInt48LE (alloc NODE_SIZE) off 0) (\<lambda>b. writeUint32LE b (real len) 6)
         = Inr (nodeBytes off len)"
proof -
  have up: "\<not> 4294967295 < real len" using assms(2) by (simp add: not_less)
  show ?thesis
    unfolding const_vals writeUInt48LE_alloc [OF assms(1)] thenE_def nodeBytes_def writeUint32LE_def
    using up by (simp add: upd10 Let_def)
qed

lemma writeNode_eq:
  assumes "off \<le> 281474976645120" "len \<le> 4294967295" "0 \<le> c"
  shows "writeNode c (off, len) st = (Inr (), st\<lparr>file_fd := fwrite (file_fd st) (nat c) (nodeBytes off len)\<rparr>)"
proof -
  have e: "writeUInt48LE (alloc NODE_SIZE) off 0 = Inr b \<Longrightarrow> writeUint32LE b (real len) 6 = Inr (nodeBytes off len)" for b
    using encode_node [OF assms(1,2)] by (simp add: thenE_def)
  obtain b where b: "writeUInt48LE (alloc NODE_SIZE) off 0 = Inr b"
    using writeUInt48LE_alloc [OF assms(1)] by (simp add: const_vals)
  have w: "writeAsync (file_fd st) (nodeBytes off len) NODE_SIZE c = Inr (fwrite (file_fd st) (nat c) (nodeBytes off len))"
    using writeAsync_fwrite [of c 10 "nodeBytes off len" "file_fd st"] assms(3) by (simp add: const_vals)
  show ?thesis unfolding writeNode_def by (simp add: b e [OF b] w)
qed


lemma buildDirLoop_sum:
  "buildDirLoop (int r) d = Some (d + (\<Sum>k\<le>r. (shl1 (int k))\<^sup>2))"
proof (induction r arbitrary: d)
  case 0
  show ?case by (subst buildDirLoop.simps) simp
next
  case (Suc r)
  have "buildDirLoop (int (Suc r)) d = buildDirLoop (int r) (d + (shl1 (int (Suc r)))\<^sup>2)"
    by (subst buildDirLoop.simps) simp
  then show ?case by (simp add: Suc)
qed



lemma sum_squares: "r \<le> 30 \<Longrightarrow> (\<Sum>k\<le>r. (shl1 (int k))\<^sup>2) = (\<Sum>k\<le>r. 4 ^ k)"
proof -
  assume a: "r \<le> 30"
  have "(shl1 (int k))\<^sup>2 = 4 ^ k" if "k \<le> r" for k
    using that a by (simp add: shl1_pow power2_eq_square flip: power_mult_distrib)
  then show ?thesis by (intro sum.cong) auto
qed

lemma buildDirSize_eq:
  assumes "depth \<le> mz"
  shows "buildDirSize depth mz = Some (nat (\<Sum>k\<le>min (mz - depth) 5. 4 ^ k) * 10)"
proof -
  have m: "min (int mz - int depth) 5 = int (min (mz - depth) 5)" using assms by auto
  have le: "min (mz - depth) 5 \<le> 30" by simp
  show ?thesis unfolding buildDirSize_def m buildDirLoop_sum sum_squares [OF le] by (simp add: const_vals)
qed


lemma buildDirSize_5_9: "buildDirSize 5 9 = Some 3410"
  by (simp add: buildDirSize_eq eval_nat_numeral atMost_Suc)

subsection \<open>The walk and its effects\<close>





lemma walkLoop_read_only:
  "walkLoop False zoom mz path buf c d st = Some (r, st') \<Longrightarrow> offset st' = offset st"
proof (induction path arbitrary: buf c d st)
  case Nil
  then show ?case by simp
next
  case (Cons s path)
  show ?case
  proof (cases "path = []")
    case True
    with Cons.prems show ?thesis by simp
  next
    case False
    with Cons.prems show ?thesis
      by (auto simp: Let_def split: if_splits sum.splits prod.splits dest: Cons.IH)
  qed
qed



lemma walkLoop_returns:
  "\<exists>r. walkLoop False zoom mz path buf c d st = Some r"
proof (induction path arbitrary: buf c d st)
  case Nil
  then show ?case by simp
next
  case (Cons s path)
  show ?case
  proof (cases "path = []")
    case True
    then show ?thesis by simp
  next
    case False
    then show ?thesis using Cons.IH
      by (auto simp: Let_def split: sum.splits prod.splits)
  qed
qed

subsection \<open>The header: \<open>commit\<close> and \<open>setupStore\<close>\<close>

lemma length_headerBytes [simp]: "length (headerBytes v mz kind l) = 10"
  by (simp add: headerBytes_def)

lemma header_prefix:
  "thenE (writeUint8 (alloc 10) 83 0) (\<lambda>d1.
   thenE (writeUint8 d1 50 1) (\<lambda>d2.
   thenE (writeUint16LE d2 v 2) (\<lambda>d3.
   thenE (writeUint8 d3 mz 4) (\<lambda>d4.
   thenE (writeUint8 d4 kind 5) k)))) =
   (if 65535 < v \<or> 255 < mz \<or> 255 < kind then Inl RangeError
    else k [83, 50, of_nat v, of_nat (v div 256), of_nat mz, of_nat kind, 0, 0, 0, 0])"
  by (simp add: thenE_def writeUint8_def writeUint16LE_def alloc10 upd10)

lemma header_length:
  assumes "l \<le> 131062"
  shows "writeUint32LE [83, 50, a, b, c, d, 0, 0, 0, 0] (real l) 6 =
     Inr [83, 50, a, b, c, d, of_nat l, of_nat (l div 256), of_nat (l div 65536), of_nat (l div 16777216)]"
proof -
  have "\<not> 4294967295 < real l" using assms by simp
  then show ?thesis by (simp add: writeUint32LE_def upd10 Let_def)
qed

lemma commitBuffers_eq:
  "commitBuffers cd meta tc st =
     (let kind = (case tc of None \<Rightarrow> compression st | Some c \<Rightarrow> c) in
      if 65535 < version st \<or> 255 < maxzoom st \<or> 255 < kind then Inl RangeError
      else case compress cd meta (compression st) of
             Inl e \<Rightarrow> Inl e
           | Inr blob \<Rightarrow>
               if 131062 < length blob then Inl MetadataTooLarge
               else Inr (headerBytes (version st) (maxzoom st) kind (length blob), blob))"
  unfolding commitBuffers_def header_prefix
  by (auto simp: Let_def thenE_def const_vals header_length headerBytes_def split: sum.splits)

lemma commit_eq:
  "commit cd meta tc st =
     (let kind = (case tc of None \<Rightarrow> compression st | Some c \<Rightarrow> c) in
      if 65535 < version st \<or> 255 < maxzoom st \<or> 255 < kind then (Inl RangeError, st)
      else case compress cd meta (compression st) of
             Inl e \<Rightarrow> (Inl e, st)
           | Inr blob \<Rightarrow>
               if 131062 < length blob then (Inl MetadataTooLarge, st)
               else (Inr (), st\<lparr>file_fd :=
                       (let f1 = fwrite (file_fd st) 0 (headerBytes (version st) (maxzoom st) kind (length blob))
                        in if blob = [] then f1 else fwrite f1 10 blob)\<rparr>))"
proof -
  have w1: "writeAsync f (headerBytes v mz k l) 10 0 = Inr (fwrite f 0 (headerBytes v mz k l))" for f v mz k l
    using writeAsync_fwrite [of 0 10 "headerBytes v mz k l" f] by simp
  have w2: "writeAsync f blob (length blob) 10 = Inr (if blob = [] then f else fwrite f 10 blob)" for f blob
    using writeAsync_fwrite [of 10 "length blob" blob f] by (auto simp: writeAsync_def)
  show ?thesis
    unfolding commit_def commitBuffers_eq
    by (auto simp: Let_def w1 w2 split: sum.splits)
qed

lemma nth_headerBytes:
  "headerBytes v mz kind l ! 6 = of_nat l"
  "headerBytes v mz kind l ! 7 = of_nat (l div 256)"
  "headerBytes v mz kind l ! 8 = of_nat (l div 65536)"
  "headerBytes v mz kind l ! 9 = of_nat (l div 16777216)"
  by (simp_all add: headerBytes_def)

lemma header_decode:
  assumes "v \<le> 65535" "mz \<le> 255" "kind \<le> 255" "l < 4294967296"
  shows "readUint16LE (headerBytes v mz kind l) 0 = 12883"
    and "readUint16LE (headerBytes v mz kind l) 2 = v"
    and "readUint8 (headerBytes v mz kind l) 4 = mz"
    and "readUint8 (headerBytes v mz kind l) 5 = kind"
    and "readUint32LE (headerBytes v mz kind l) 6 = l"
proof -
  show "readUint16LE (headerBytes v mz kind l) 0 = 12883"
    by (simp add: readUint16LE_def headerBytes_def)
  have "v < 65536" using assms(1) by simp
  from le16 [OF this] show "readUint16LE (headerBytes v mz kind l) 2 = v"
    by (simp add: readUint16LE_def headerBytes_def unat_byte)
  show "readUint8 (headerBytes v mz kind l) 4 = mz" using assms(2)
    by (simp add: readUint8_def headerBytes_def unat_byte)
  show "readUint8 (headerBytes v mz kind l) 5 = kind" using assms(3)
    by (simp add: readUint8_def headerBytes_def unat_byte)
  have "readUint32LE (headerBytes v mz kind l) 6 =
     l mod 256 + l div 256 mod 256 * 256 + l div 65536 mod 256 * 65536
       + l div 16777216 mod 256 * 16777216"
    unfolding readUint32LE_def
    by (simp only: nth_headerBytes unat_byte numeral_plus_numeral numeral_plus_one add_num_simps arith_simps)
  then show "readUint32LE (headerBytes v mz kind l) 6 = l" using le32 [OF assms(4)] by (simp only:)
qed

lemma nth_fread: "i < n \<Longrightarrow> fread f p n ! i = (if p + i < fsize f then fdata f (p + i) else 0)"
  by (simp add: fread_def)

lemma fread_prefix: "i < m \<Longrightarrow> m \<le> n \<Longrightarrow> fread f p n ! i = fread f p m ! i"
  by (simp add: nth_fread)

lemma fread_slice: "a \<le> n \<Longrightarrow> drop a (take (a + m) (fread f 0 n)) = fread f a (min m (n - a))"
  by (auto simp: fread_def take_map drop_map min_def intro!: arg_cong2 [where f = map])

lemma read_header_fields:
  "readUint16LE (fread f 0 ROOT_SIZE) 0 = readUint16LE (fread f 0 10) 0"
  "readUint16LE (fread f 0 ROOT_SIZE) 2 = readUint16LE (fread f 0 10) 2"
  "readUint8 (fread f 0 ROOT_SIZE) 4 = readUint8 (fread f 0 10) 4"
  "readUint8 (fread f 0 ROOT_SIZE) 5 = readUint8 (fread f 0 10) 5"
  "readUint32LE (fread f 0 ROOT_SIZE) 6 = readUint32LE (fread f 0 10) 6"
  by (simp_all add: readUint16LE_def readUint8_def readUint32LE_def const_vals fread_prefix [where m = 10 and n = 212972])

lemma setupStore_eq:
  assumes "\<not> isSetup st"
  shows "setupStore cd st =
     (let st1 = st\<lparr>isSetup := True\<rparr>; hdr = fread (file_fd st) 0 10
      in if readUint16LE hdr 0 \<noteq> 12883 then (Inl BadMetadata, st1)
         else let st2 = st1\<lparr>version := readUint16LE hdr 2, maxzoom := readUint8 hdr 4,
                            compression := readUint8 hdr 5\<rparr>;
                  mL = readUint32LE hdr 6
           in if mL = 0 then (Inl FailedMetadata, st2)
              else case decompress cd (fread (file_fd st) 10 (min mL (ROOT_SIZE - 10))) (readUint8 hdr 5) of
                     Inl e \<Rightarrow> (Inl e, st2)
                   | Inr meta_data \<Rightarrow>
                       (case jsonParse cd meta_data of
                          Inl e \<Rightarrow> (Inl e, st2)
                        | Inr m \<Rightarrow> (Inr (), st2\<lparr>metadata := Some m\<rparr>)))"
proof -
  have r: "readAsync (file_fd st) (alloc ROOT_SIZE) ROOT_SIZE 0
      = Inr (fread (file_fd st) 0 ROOT_SIZE, file_fd st)"
    using readAsync_alloc [of 0 "file_fd st" ROOT_SIZE] by simp
  have s: "drop 10 (take (10 + mL) (fread (file_fd st) 0 ROOT_SIZE)) = fread (file_fd st) 10 (min mL (ROOT_SIZE - 10))" for mL
    by (rule fread_slice) (simp add: const_vals)
  show ?thesis
    unfolding setupStore_def using assms
    by (simp add: r s read_header_fields Let_def)
qed

subsection \<open>The scenario WM small, step by step\<close>


lemma len_hw [simp]: "length (utf8 ''hello world'') = 11" "utf8 ''hello world'' \<noteq> []"
  by (simp_all add: utf8_def)

lemma len_hw2 [simp]: "length (utf8 ''hello world 2'') = 13" "utf8 ''hello world 2'' \<noteq> []"
  by (simp_all add: utf8_def)

lemma step1:
  "putTile cd 0 0 0 0 (utf8 ''hello world'') (new_S2TilesStore None (Some 9) (Some NoneC)) =
   Some (Inr (), \<lparr>file_fd = wm_f1,
      isSetup = False, offset = 212983, maxzoom = 9, version = 1, compression = NoneC, metadata = None\<rparr>)"
  by (simp add: putTile_NoneC new_S2TilesStore_def putNodeInDir_def walk_def path_0_0_0 const_vals writeNode_eq wm_f1_def wm_f0_def)


lemma step2:
  "putTile cd 0 1 0 1 (utf8 ''hello world'') \<lparr>file_fd = wm_f1,
      isSetup = False, offset = 212983, maxzoom = 9, version = 1, compression = NoneC, metadata = None\<rparr> =
   Some (Inr (), \<lparr>file_fd = wm_f2,
      isSetup = False, offset = 212994, maxzoom = 9, version = 1, compression = NoneC, metadata = None\<rparr>)"
  by (simp add: putTile_NoneC putNodeInDir_def walk_def path_1_0_1 const_vals writeNode_eq wm_f2_def)

lemma fsize_wm_f2: "fsize wm_f2 = 212994"
  by (simp add: wm_f2_def wm_f1_def wm_f0_def)

lemma leaf_f2: "fread (fwrite wm_f2 212994 (utf8 ''hello world 2'')) 137582 10 = replicate 10 0"
  by (simp add: wm_f2_def wm_f1_def wm_f0_def fread_fwrite_disjoint fread_zero)

lemma step3:
  "putTile cd 0 9 22 9 (utf8 ''hello world 2'') \<lparr>file_fd = wm_f2,
      isSetup = False, offset = 212994, maxzoom = 9, version = 1, compression = NoneC, metadata = None\<rparr> =
   Some (Inr (), \<lparr>file_fd = wm_f3,
      isSetup = False, offset = 216417, maxzoom = 9, version = 1, compression = NoneC, metadata = None\<rparr>)"
  by (simp add: putTile_NoneC putNodeInDir_def walk_def path_9_22_9 const_vals writeNode_eq wm_f3_def
        readAsync_alloc leaf_f2 read48_zero createLeafDir_def buildDirSize_5_9 writeAsync_fwrite)

lemma len_meta [simp]: "length wm_meta = 17" "wm_meta \<noteq> []"
  by (simp_all add: wm_meta_def utf8_def)

lemma header_wm: "headerBytes 1 9 NoneC 17 = [83, 50, 1, 0, 9, 1, 17, 0, 0, 0]"
  by (simp add: headerBytes_def NoneC_def)

lemma step4:
  "commit cd wm_meta None \<lparr>file_fd = wm_f3,
      isSetup = False, offset = 216417, maxzoom = 9, version = 1, compression = NoneC, metadata = None\<rparr> =
   (Inr (), \<lparr>file_fd = wm_f4,
      isSetup = False, offset = 216417, maxzoom = 9, version = 1, compression = NoneC, metadata = None\<rparr>)"
  by (simp add: commit_eq compress_def wm_f4_def NoneC_def)

lemma fsize_wm_f4: "fsize wm_f4 = 216417"
  by (simp add: wm_f4_def wm_f3_def wm_f2_def wm_f1_def wm_f0_def)

lemmas wm_files = wm_f4_def wm_f3_def wm_f2_def wm_f1_def wm_f0_def

lemma hdr_f4: "fread wm_f4 0 10 = [83, 50, 1, 0, 9, 1, 17, 0, 0, 0]"
  by (simp add: wm_f4_def fread_fwrite_disjoint fread_fwrite_same header_wm [symmetric])

lemma meta_f4: "fread wm_f4 10 17 = wm_meta"
  by (simp add: wm_f4_def fread_fwrite_same)

lemma fpos_wm_f0 [simp]: "fpos wm_f0 = 0"
  by (simp add: wm_f0_def)

lemma fpos_wm_f4 [simp]: "fpos wm_f4 = 0"
  by (simp add: wm_f4_def wm_f3_def wm_f2_def wm_f1_def)

lemma setup_rd:
  "jsonParse cd wm_meta = Inr j \<Longrightarrow>
   setupStore cd (new_S2TilesStore (Some wm_f4) None None) = (Inr (), wm_rd j)"
  by (simp add: setupStore_eq new_S2TilesStore_def hdr_f4 meta_f4 readUint16LE_def readUint8_def
        readUint32LE_def const_vals decompress_def NoneC_def wm_rd_def Let_def fpos_reset)

lemma node_0_0_0: "fread wm_f4 131072 10 = nodeBytes 212972 11"
  by (simp add: wm_files fread_fwrite_disjoint fread_fwrite_same)

lemma tile_0_0_0: "fread wm_f4 212972 11 = utf8 ''hello world''"
  by (simp add: wm_files fread_fwrite_disjoint fread_fwrite_same)

lemma get_0_0_0:
  "jsonParse cd wm_meta = Inr j \<Longrightarrow>
   getTileS2 cd 0 0 0 0 (new_S2TilesStore (Some wm_f4) None None) = Some (Inr (Some (utf8 ''hello world'')), wm_rd j)"
  unfolding getTileS2_def
  by (simp add: setup_rd wm_rd_def walk_def path_0_0_0 const_vals readAsync_alloc node_0_0_0 read48_nodeBytes
       read32_nodeBytes tile_0_0_0 decompress_def)

lemma node_1_0_1: "fread wm_f4 131102 10 = nodeBytes 212983 11"
  by (simp add: wm_files fread_fwrite_disjoint fread_fwrite_same)

lemma tile_1_0_1: "fread wm_f4 212983 11 = utf8 ''hello world''"
  by (simp add: wm_files fread_fwrite_disjoint fread_fwrite_same)

lemma get_1_0_1:
  "jsonParse cd wm_meta = Inr j \<Longrightarrow>
   getTileS2 cd 0 1 0 1 (new_S2TilesStore (Some wm_f4) None None) = Some (Inr (Some (utf8 ''hello world'')), wm_rd j)"
  unfolding getTileS2_def
  by (simp add: setup_rd wm_rd_def walk_def path_1_0_1 const_vals readAsync_alloc node_1_0_1 read48_nodeBytes
       read32_nodeBytes tile_1_0_1 decompress_def)

lemma leaf_9_22_9: "fread wm_f4 137582 10 = nodeBytes 213007 3410"
  by (simp add: wm_files fread_fwrite_disjoint fread_fwrite_same)

lemma node_9_22_9: "fread wm_f4 213857 10 = nodeBytes 212994 13"
  by (simp add: wm_files fread_fwrite_disjoint fread_fwrite_same)

lemma tile_9_22_9: "fread wm_f4 212994 13 = utf8 ''hello world 2''"
  by (simp add: wm_files fread_fwrite_disjoint fread_fwrite_same)

lemma get_9_22_9:
  "jsonParse cd wm_meta = Inr j \<Longrightarrow>
   getTileS2 cd 0 9 22 9 (new_S2TilesStore (Some wm_f4) None None) = Some (Inr (Some (utf8 ''hello world 2'')), wm_rd j)"
  unfolding getTileS2_def
  by (simp add: setup_rd wm_rd_def walk_def path_9_22_9 const_vals readAsync_alloc leaf_9_22_9 node_9_22_9 read48_nodeBytes
       read32_nodeBytes tile_9_22_9 decompress_def)

lemma node_1_1_1: "fread wm_f4 131112 10 = replicate 10 0"
  by (simp add: wm_files fread_fwrite_disjoint fread_zero)

lemma has_1_1_1:
  "jsonParse cd wm_meta = Inr j \<Longrightarrow>
   hasTileS2 cd 0 1 1 1 (new_S2TilesStore (Some wm_f4) None None) = Some (Inr False, wm_rd j)"
  unfolding hasTileS2_def
  by (simp add: setup_rd wm_rd_def walk_def path_1_1_1 const_vals readAsync_alloc node_1_1_1 read48_zero)

lemma leaf_5_0_0: "fread wm_f4 134482 10 = replicate 10 0"
  by (simp add: wm_files fread_fwrite_disjoint fread_zero)

lemma has_5_0_0:
  "jsonParse cd wm_meta = Inr j \<Longrightarrow>
   hasTileS2 cd 0 5 0 0 (new_S2TilesStore (Some wm_f4) None None) = Some (Inr True, wm_rd j)"
  unfolding hasTileS2_def
  by (simp add: setup_rd wm_rd_def walk_def path_5_0_0 const_vals readAsync_alloc leaf_5_0_0 read48_zero hdr_f4
       readUInt48LE_def readUint32LE_def readUint16LE_def shl1_16)

lemma get_1_1_1:
  "jsonParse cd wm_meta = Inr j \<Longrightarrow>
   getTileS2 cd 0 1 1 1 (new_S2TilesStore (Some wm_f4) None None) = Some (Inr (Some []), wm_rd j)"
  unfolding getTileS2_def
  by (simp add: setup_rd wm_rd_def walk_def path_1_1_1 const_vals readAsync_alloc node_1_1_1 read48_zero read32_zero
       decompress_def fread_0)

subsection \<open>Reading back what was written\<close>

lemma walk_read_only: "walk face zoom x y False st = Some (r, st') \<Longrightarrow> offset st' = offset st"
  unfolding walk_def by (rule walkLoop_read_only)



lemma getTileS2_eq:
  assumes "setupStore cd rd = (Inr (), rd1)" "walk face zoom x y False rd1 = Some (Inr c, rd2)" "0 \<le> c"
  shows "getTileS2 cd face zoom x y rd =
     Some (case decompress cd
                  (fread (file_fd rd2) (fst (nodeAt (file_fd rd2) (nat c))) (snd (nodeAt (file_fd rd2) (nat c))))
                  (compression rd1) of
             Inl e \<Rightarrow> (Inl e, rd2)
           | Inr tile \<Rightarrow> (Inr (Some tile), rd2))"
  unfolding getTileS2_def using assms
  by (simp add: const_vals readAsync_alloc nodeAt_def Let_def split: sum.splits)

lemma fread_commit_header:
  "fread (let f1 = fwrite f 0 (headerBytes v mz k l) in if blob = [] then f1 else fwrite f1 10 blob) 0 10
     = headerBytes v mz k l"
  by (simp add: Let_def fread_fwrite_same fread_fwrite_disjoint)

lemma fread_commit_blob:
  "fread (let f1 = fwrite f 0 (headerBytes v mz k l) in if blob = [] then f1 else fwrite f1 10 blob) 10 (length blob)
     = blob"
  by (simp add: Let_def fread_fwrite_same fread_0)

lemma walk_root_slot: "walk face 0 0 0 create st = Some (Inr (int (131072 + face * 13650)), st)"
  by (simp add: walk_def path_0_0_0 const_vals)

lemma gzip_put:
  assumes "gzip cd bytes = Inr z" "bytes \<noteq> []" "length bytes \<le> length z"
    "length bytes \<le> 4294967295"
  shows "putTile cd 0 0 0 0 bytes (new_S2TilesStore None None None) =
     Some (Inr (), \<lparr>file_fd = fwrite (fwrite wm_f0 212972 (take (length bytes) z)) 131072
                                 (nodeBytes 212972 (length bytes)),
                     isSetup = False, offset = 212972 + length bytes, maxzoom = 0, version = 1,
                     compression = Gzip, metadata = None\<rparr>)"
proof -
  have c: "compress cd bytes Gzip = Inr z" using assms(1) by (simp add: compress_def Gzip_def NoneC_def)
  have w: "writeAsync wm_f0 z (length bytes) 212972 = Inr (fwrite wm_f0 212972 (take (length bytes) z))"
    using writeAsync_fwrite [of 212972 "length bytes" z wm_f0] assms(2,3) by simp
  show ?thesis
    unfolding putTile_def
    using assms(4)
    by (simp add: new_S2TilesStore_def const_vals c w Let_def wm_f0_def [symmetric]
          putNodeInDir_def walk_root_slot writeNode_eq)
qed

subsection \<open>Writes at the position of the descriptor, and \<open>putTile\<close> by cases\<close>

lemma fread_fpos [simp]: "fread (f\<lparr>fpos := q\<rparr>) p n = fread f p n"
  by (simp add: fread_def)

lemma nodeAt_fpos [simp]: "nodeAt (f\<lparr>fpos := q\<rparr>) c = nodeAt f c"
  by (simp add: nodeAt_def)






subsection \<open>The gzip scenario, step by step\<close>


lemma gz_kind: "Gzip \<noteq> NoneC" "Gzip \<le> 255"
  by (simp_all add: Gzip_def NoneC_def)

lemma gz_compress:
  "compress frame_codec data Gzip = Inr (31 # 139 # data)"
  "decompress frame_codec (31 # 139 # data) Gzip = Inr data"
  by (simp_all add: compress_def decompress_def frame_codec_def unframe_def Gzip_def NoneC_def)







lemma fpos_gz_f2 [simp]: "fpos gz_f2 = 0"
  by (simp add: gz_f2_def gz_f1_def)













section \<open>The claims\<close>

subsection \<open>The path encoder\<close>

text \<open>
  Claim C6, as the specification states it: the path of a zoom above 0 has
  \<open>\<lceil>zoom / 5\<rceil> + 1\<close> elements. The code returns one element at zoom 1, not two.
\<close>

theorem path_length_counterexample:
  "length (getS2TilePath 1 0 0) \<noteq> spec_path_length 1"
  by (simp add: getS2TilePath_def length_slices spec_path_length_def)

text \<open>
  Claim C6, amended: for every zoom above 0 and all valid \<open>x\<close> and \<open>y\<close>, that is
  \<open>0 \<le> x, y < 2 ^ zoom\<close>, the path has \<open>\<lfloor>zoom / 5\<rfloor> + 1\<close> elements, one per full group of
  five zoom levels and one for the residual slice; at zoom 0 it is the single index 0.
\<close>

theorem path_length:
  assumes "0 \<le> x" "x < 2 ^ zoom" "0 \<le> y" "y < 2 ^ zoom"
  shows "(0 < zoom \<longrightarrow> length (getS2TilePath zoom x y) = zoom div 5 + 1)
       \<and> (zoom = 0 \<longrightarrow> getS2TilePath zoom x y = [0])"
proof -
  have l: "length (getS2TilePath zoom x y) = zoom div 5 + 1"
    by (simp add: getS2TilePath_def length_slices)
  have z: "getS2TilePath zoom x y = [0]" if "zoom = 0"
  proof -
    from assms that have "x = 0" "y = 0" by simp_all
    with that show ?thesis by (simp add: path_0_0_0)
  qed
  from l z show ?thesis by blast
qed

theorem path_length_witness:
  "length (getS2TilePath 9 22 9) = 9 div 5 + 1 \<and> getS2TilePath 0 0 0 = [0]"
  using path_length [of 22 9 9] path_length [of 0 0 0] by simp

text \<open>
  Claim C7, as the specification states it: from zoom 5 on, the first element of the path
  is the slot index of the residual, most significant slice. At \<open>(5, 1, 0)\<close> the path is
  \<open>[342, 0]\<close>: the residual slice \<open>(0, 0, 0)\<close> has index 0 and comes last.
\<close>

theorem path_order_counterexample:
  "hd (getS2TilePath 5 1 0) \<noteq> sliceIndex (spec_residual_slice 5 1 0)"
  by (simp add: path_5_1_0 sliceIndex_def spec_residual_slice_def slotIndex_eq)

text \<open>
  Claim C7, amended: from zoom 5 on, for coordinates below \<open>2\<^sup>3\<^sup>1\<close>, the first element of
  the path, the one that indexes the root directory of the face, is the slot index of the
  slice of the least significant five bits of \<open>x\<close> and \<open>y\<close>; element \<open>i\<close> is the index of
  the \<open>i\<close>-th group of five bits from the low end; the last element is the index of the
  residual, most significant slice.
\<close>

theorem path_order:
  assumes "5 \<le> zoom" "0 \<le> x" "x < 2147483648" "0 \<le> y" "y < 2147483648"
  shows "hd (getS2TilePath zoom x y) = slotIndex 5 (x mod 32) (y mod 32)
       \<and> (\<forall>i < zoom div 5. getS2TilePath zoom x y ! i
             = slotIndex 5 (x div 32 ^ i mod 32) (y div 32 ^ i mod 32))
       \<and> last (getS2TilePath zoom x y) = sliceIndex (spec_residual_slice zoom x y)"
proof -
  have c: "getS2TilePath zoom x y =
     map (\<lambda>i. slotIndex 5 (x div 32 ^ i mod 32) (y div 32 ^ i mod 32)) [0..<zoom div 5]
     @ [slotIndex (zoom mod 5) (x div 32 ^ (zoom div 5)) (y div 32 ^ (zoom div 5))]"
    using assms by (simp add: getS2TilePath_def slices_closed comp_def)
  have pos: "0 < zoom div 5" using assms(1) by (simp add: div_greater_zero_iff)
  have h: "hd (getS2TilePath zoom x y) = slotIndex 5 (x mod 32) (y mod 32)"
    unfolding c using pos by (simp add: hd_append hd_map upt_conv_Cons)
  have n: "\<forall>i < zoom div 5. getS2TilePath zoom x y ! i
             = slotIndex 5 (x div 32 ^ i mod 32) (y div 32 ^ i mod 32)"
    unfolding c by (simp add: nth_append)
  have l: "last (getS2TilePath zoom x y) = sliceIndex (spec_residual_slice zoom x y)"
    unfolding c by (simp add: sliceIndex_def spec_residual_slice_def)
  from h n l show ?thesis by blast
qed

theorem path_order_witness:
  "hd (getS2TilePath 9 22 9) = slotIndex 5 (22 mod 32) (9 mod 32)
   \<and> getS2TilePath 9 22 9 ! 0 = slotIndex 5 (22 div 32 ^ 0 mod 32) (9 div 32 ^ 0 mod 32)
   \<and> last (getS2TilePath 9 22 9) = sliceIndex (spec_residual_slice 9 22 9)"
  using path_order [of 9 22 9] by simp



subsection \<open>The archive engine\<close>

text \<open>
  Claim C1, at a failing input. A store opened with the default compression, gzip, records
  for a tile the length \<open>L\<close> of its bytes before compression and writes the first \<open>L\<close>
  bytes of the compressed payload; whenever the compressed payload is at least as long as
  the bytes, \<open>putTile\<close> and \<open>commit\<close> complete and a reader's \<open>getTileS2\<close>, once its
  \<open>setupStore\<close> has decompressed and parsed the metadata, hands the decompressor those
  first \<open>L\<close> bytes only, a proper prefix of the compressed payload as
  soon as that is longer than the bytes. What comes back is whatever \<open>gunzip\<close> makes of
  the prefix, not the bytes that were put.
\<close>

theorem gzip_tile_read_back:
  assumes "gzip cd bytes = Inr z" "bytes \<noteq> []" "length bytes \<le> length z"
    "length bytes \<le> 4294967295"
    and "gzip cd metadata_json = Inr zm" "zm \<noteq> []" "length zm \<le> 131062" "gunzip cd zm = Inr m"
    and "jsonParse cd m = Inr j"
  shows "\<exists>s1 s2 rd.
           putTile cd 0 0 0 0 bytes (new_S2TilesStore None None None) = Some (Inr (), s1)
         \<and> commit cd metadata_json None s1 = (Inr (), s2)
         \<and> getTileS2 cd 0 0 0 0 (new_S2TilesStore (Some (file_fd s2)) None None) =
             Some (case gunzip cd (take (length bytes) z) of
                     Inl e \<Rightarrow> (Inl e, rd)
                   | Inr tile \<Rightarrow> (Inr (Some tile), rd))"
proof -
  let ?L = "length bytes"
  let ?f1 = "fwrite (fwrite wm_f0 212972 (take ?L z)) 131072 (nodeBytes 212972 ?L)"
  let ?s1 = "\<lparr>file_fd = ?f1, isSetup = False, offset = 212972 + ?L, maxzoom = 0, version = 1,
               compression = Gzip, metadata = None\<rparr>"
  let ?h = "headerBytes (Suc 0) 0 Gzip (length zm)"
  let ?f2 = "fwrite (fwrite ?f1 0 ?h) 10 zm"
  let ?s2 = "?s1\<lparr>file_fd := ?f2\<rparr>"
  let ?rd = "\<lparr>file_fd = ?f2, isSetup = True, offset = 212972, maxzoom = 0, version = 1,
               compression = Gzip, metadata = Some j\<rparr>"
  have g: "Gzip \<noteq> NoneC" "Gzip \<le> 255" by (simp_all add: Gzip_def NoneC_def)
  have p: "putTile cd 0 0 0 0 bytes (new_S2TilesStore None None None) = Some (Inr (), ?s1)"
    using assms(1-4) by (rule gzip_put)
  have cm: "compress cd metadata_json Gzip = Inr zm" using assms(5) g by (simp add: compress_def)
  have c: "commit cd metadata_json None ?s1 = (Inr (), ?s2)"
    using assms(6,7) g by (simp add: commit_eq cm)
  have l32: "length zm < 4294967296" using assms(7) by simp
  have one: "Suc 0 \<le> 65535" "(0::nat) \<le> 255" by simp_all
  note hd = header_decode [OF one(1) one(2) g(2) l32]
  have h: "fread ?f2 0 10 = ?h" by (simp add: fread_fwrite_disjoint fread_fwrite_same)
  have b: "fread ?f2 10 (length zm) = zm" by (simp add: fread_fwrite_same)
  have mn: "min (length zm) 212962 = length zm" using assms(7) by simp
  have dz: "decompress cd zm Gzip = Inr m" using assms(8) g by (simp add: decompress_def)
  have s: "setupStore cd (new_S2TilesStore (Some ?f2) None None) = (Inr (), ?rd)"
    using assms(6)
    by (simp add: setupStore_eq new_S2TilesStore_def fpos_reset h hd mn b dz assms(9) Let_def const_vals)
  have w: "walk 0 0 0 0 False ?rd = Some (Inr 131072, ?rd)" by (simp add: walk_root_slot)
  have nb: "fread ?f2 131072 10 = nodeBytes 212972 ?L"
    using assms(7) by (simp add: fread_fwrite_disjoint fread_fwrite_same)
  have na: "nodeAt ?f2 131072 = (212972, ?L)"
    using assms(4) by (simp add: nodeAt_def nb read48_nodeBytes read32_nodeBytes)
  have t: "fread ?f2 212972 ?L = take ?L z"
    using assms(3,7) by (simp add: fread_fwrite_disjoint fread_fwrite_same)
  have d: "decompress cd (take ?L z) Gzip = gunzip cd (take ?L z)" using g by (simp add: decompress_def)
  have "getTileS2 cd 0 0 0 0 (new_S2TilesStore (Some ?f2) None None) =
      Some (case gunzip cd (take ?L z) of
              Inl e \<Rightarrow> (Inl e, ?rd)
            | Inr tile \<Rightarrow> (Inr (Some tile), ?rd))"
    using getTileS2_eq [OF s w] by (simp add: na t d)
  then have "getTileS2 cd 0 0 0 0 (new_S2TilesStore (Some (file_fd ?s2)) None None) =
      Some (case gunzip cd (take ?L z) of
              Inl e \<Rightarrow> (Inl e, ?rd)
            | Inr tile \<Rightarrow> (Inr (Some tile), ?rd))"
    by simp
  with p c show ?thesis by blast
qed

theorem gzip_tile_read_back_witness:
  "\<exists>s1 s2 rd.
     putTile frame_codec 0 0 0 0 (utf8 ''hello world'') (new_S2TilesStore None None None) = Some (Inr (), s1)
   \<and> commit frame_codec wm_meta None s1 = (Inr (), s2)
   \<and> getTileS2 frame_codec 0 0 0 0 (new_S2TilesStore (Some (file_fd s2)) None None) =
       Some (Inr (Some (utf8 ''hello wor'')), rd)"
proof -
  have a: "gzip frame_codec (utf8 ''hello world'') = Inr (31 # 139 # utf8 ''hello world'')"
    and b: "gzip frame_codec wm_meta = Inr (31 # 139 # wm_meta)"
    and c: "gunzip frame_codec (31 # 139 # wm_meta) = Inr wm_meta"
    and d: "jsonParse frame_codec wm_meta = Inr [(''metadata'', True)]"
    by (simp_all add: frame_codec_def unframe_def)
  have t: "gunzip frame_codec (take (length (utf8 ''hello world'')) (31 # 139 # utf8 ''hello world''))
      = Inr (utf8 ''hello wor'')"
    by (simp add: frame_codec_def unframe_def utf8_def)
  from gzip_tile_read_back [OF a _ _ _ b _ _ c d] show ?thesis
    unfolding t by simp
qed

text \<open>
  Claim C2, at a failing input, for a platform whose \<^verbatim>\<open>JSON.parse\<close> accepts the metadata
  of the scenario. In the archive of the scenario WM small no tile was put at
  \<open>(0, 5, 0, 0)\<close> nor at \<open>(0, 1, 1, 1)\<close>. The walk to \<open>(0, 5, 0, 0)\<close> finds no leaf directory
  and returns 0, \<open>hasTileS2\<close> then decodes the first ten bytes of the header as a node
  record and answers true; and \<open>getTileS2\<close> at \<open>(0, 1, 1, 1)\<close> returns an empty tile, not
  \<open>None\<close>.
\<close>

theorem absent_tile_reported_present:
  assumes "jsonParse cd wm_meta = Inr j"
  shows "\<exists>s1 s2 s3 s4.
     putTile cd 0 0 0 0 (utf8 ''hello world'') (new_S2TilesStore None (Some 9) (Some NoneC)) = Some (Inr (), s1)
   \<and> putTile cd 0 1 0 1 (utf8 ''hello world'') s1 = Some (Inr (), s2)
   \<and> putTile cd 0 9 22 9 (utf8 ''hello world 2'') s2 = Some (Inr (), s3)
   \<and> commit cd wm_meta None s3 = (Inr (), s4)
   \<and> map_option fst (hasTileS2 cd 0 5 0 0 (new_S2TilesStore (Some (file_fd s4)) None None))
       = Some (Inr True)
   \<and> map_option fst (getTileS2 cd 0 1 1 1 (new_S2TilesStore (Some (file_fd s4)) None None))
       = Some (Inr (Some []))"
proof (intro exI conjI)
  show "putTile cd 0 0 0 0 (utf8 ''hello world'') (new_S2TilesStore None (Some 9) (Some NoneC)) =
      Some (Inr (), \<lparr>file_fd = wm_f1, isSetup = False, offset = 212983, maxzoom = 9, version = 1,
                      compression = NoneC, metadata = None\<rparr>)"
    by (rule step1)
  show "putTile cd 0 1 0 1 (utf8 ''hello world'')
        \<lparr>file_fd = wm_f1, isSetup = False, offset = 212983, maxzoom = 9, version = 1,
           compression = NoneC, metadata = None\<rparr> =
      Some (Inr (), \<lparr>file_fd = wm_f2, isSetup = False, offset = 212994, maxzoom = 9, version = 1,
                      compression = NoneC, metadata = None\<rparr>)"
    by (rule step2)
  show "putTile cd 0 9 22 9 (utf8 ''hello world 2'')
        \<lparr>file_fd = wm_f2, isSetup = False, offset = 212994, maxzoom = 9, version = 1,
           compression = NoneC, metadata = None\<rparr> =
      Some (Inr (), \<lparr>file_fd = wm_f3, isSetup = False, offset = 216417, maxzoom = 9, version = 1,
                      compression = NoneC, metadata = None\<rparr>)"
    by (rule step3)
  show "commit cd wm_meta None
        \<lparr>file_fd = wm_f3, isSetup = False, offset = 216417, maxzoom = 9, version = 1,
           compression = NoneC, metadata = None\<rparr> =
      (Inr (), \<lparr>file_fd = wm_f4, isSetup = False, offset = 216417, maxzoom = 9, version = 1,
                 compression = NoneC, metadata = None\<rparr>)"
    by (rule step4)
qed (simp_all only: S2TilesStore.select_convs has_5_0_0 [OF assms] get_1_1_1 [OF assms]
       option.map fst_conv)

theorem absent_tile_reported_present_witness:
  "\<exists>s1 s2 s3 s4.
     putTile frame_codec 0 0 0 0 (utf8 ''hello world'') (new_S2TilesStore None (Some 9) (Some NoneC))
       = Some (Inr (), s1)
   \<and> putTile frame_codec 0 1 0 1 (utf8 ''hello world'') s1 = Some (Inr (), s2)
   \<and> putTile frame_codec 0 9 22 9 (utf8 ''hello world 2'') s2 = Some (Inr (), s3)
   \<and> commit frame_codec wm_meta None s3 = (Inr (), s4)
   \<and> map_option fst (hasTileS2 frame_codec 0 5 0 0 (new_S2TilesStore (Some (file_fd s4)) None None))
       = Some (Inr True)
   \<and> map_option fst (getTileS2 frame_codec 0 1 1 1 (new_S2TilesStore (Some (file_fd s4)) None None))
       = Some (Inr (Some []))"
proof -
  have p: "jsonParse frame_codec wm_meta = Inr [(''metadata'', True)]"
    by (simp add: frame_codec_def)
  from absent_tile_reported_present [OF p] show ?thesis .
qed

text \<open>
  Claim C3, as the specification states it: a new archive is 131072 + 163800 = 294872
  bytes long, the append cursor starts there, and the root directory of face \<open>f\<close> starts
  at \<open>131072 + f \<cdot> 27300\<close>. The code's \<open>DIR_SIZE\<close> is 13650, so none of the three holds.
\<close>

theorem root_geometry_counterexample:
  "fsize (file_fd (new_S2TilesStore None None None)) \<noteq> 131072 + 163800
   \<and> offset (new_S2TilesStore None None None) \<noteq> 294872
   \<and> walk 1 0 0 0 False (new_S2TilesStore None None None)
       \<noteq> Some (Inr (131072 + 1 * 27300), new_S2TilesStore None None None)"
  by (simp add: walk_root_slot new_S2TilesStore_def const_vals)

text \<open>
  Claim C3, amended: \<open>new_S2TilesStore\<close> on a path without a file creates a file of
  131072 + 81900 = 212972 zero bytes; the append cursor starts at 212972; and the walk to
  zoom 0 of face \<open>f\<close>, the first slot of its root directory, ends at
  \<open>131072 + f \<cdot> 13650\<close>, so each root directory has 13650 bytes and the six of them end
  at 212972.
\<close>

theorem root_geometry:
  "fsize (file_fd (new_S2TilesStore None maxzoom_arg compression_arg)) = 131072 + 81900
   \<and> (\<forall>i. fdata (file_fd (new_S2TilesStore None maxzoom_arg compression_arg)) i = 0)
   \<and> offset (new_S2TilesStore existing maxzoom_arg compression_arg) = 212972
   \<and> (\<forall>face st. walk face 0 0 0 False st = Some (Inr (int (131072 + face * 13650)), st))
   \<and> DIR_SIZE = 13650 \<and> ROOT_SIZE = 131072 + 6 * 13650"
  by (simp add: walk_root_slot new_S2TilesStore_def const_vals)

text \<open>
  Claim C4: on a new archive with maxzoom 9 and no compression, after the three tiles and
  the commit of the metadata \<^verbatim>\<open>{"metadata":true}\<close> the file is 216417 bytes long; a reader
  opened on it, whose \<^verbatim>\<open>JSON.parse\<close> accepts that metadata, gets the three tiles back byte
  for byte, and has no tile at \<open>(0, 1, 1, 1)\<close>.
\<close>

theorem wm_small_scenario:
  assumes "jsonParse cd wm_meta = Inr j"
  shows "\<exists>s1 s2 s3 s4.
     putTile cd 0 0 0 0 (utf8 ''hello world'') (new_S2TilesStore None (Some 9) (Some NoneC)) = Some (Inr (), s1)
   \<and> putTile cd 0 1 0 1 (utf8 ''hello world'') s1 = Some (Inr (), s2)
   \<and> putTile cd 0 9 22 9 (utf8 ''hello world 2'') s2 = Some (Inr (), s3)
   \<and> commit cd wm_meta None s3 = (Inr (), s4)
   \<and> fsize (file_fd s4) = 216417
   \<and> map_option fst (getTileS2 cd 0 0 0 0 (new_S2TilesStore (Some (file_fd s4)) None None))
       = Some (Inr (Some (utf8 ''hello world'')))
   \<and> map_option fst (getTileS2 cd 0 1 0 1 (new_S2TilesStore (Some (file_fd s4)) None None))
       = Some (Inr (Some (utf8 ''hello world'')))
   \<and> map_option fst (getTileS2 cd 0 9 22 9 (new_S2TilesStore (Some (file_fd s4)) None None))
       = Some (Inr (Some (utf8 ''hello world 2'')))
   \<and> map_option fst (hasTileS2 cd 0 1 1 1 (new_S2TilesStore (Some (file_fd s4)) None None))
       = Some (Inr False)"
proof (intro exI conjI)
  show "putTile cd 0 0 0 0 (utf8 ''hello world'') (new_S2TilesStore None (Some 9) (Some NoneC)) =
      Some (Inr (), \<lparr>file_fd = wm_f1, isSetup = False, offset = 212983, maxzoom = 9, version = 1,
                      compression = NoneC, metadata = None\<rparr>)"
    by (rule step1)
  show "putTile cd 0 1 0 1 (utf8 ''hello world'')
        \<lparr>file_fd = wm_f1, isSetup = False, offset = 212983, maxzoom = 9, version = 1,
           compression = NoneC, metadata = None\<rparr> =
      Some (Inr (), \<lparr>file_fd = wm_f2, isSetup = False, offset = 212994, maxzoom = 9, version = 1,
                      compression = NoneC, metadata = None\<rparr>)"
    by (rule step2)
  show "putTile cd 0 9 22 9 (utf8 ''hello world 2'')
        \<lparr>file_fd = wm_f2, isSetup = False, offset = 212994, maxzoom = 9, version = 1,
           compression = NoneC, metadata = None\<rparr> =
      Some (Inr (), \<lparr>file_fd = wm_f3, isSetup = False, offset = 216417, maxzoom = 9, version = 1,
                      compression = NoneC, metadata = None\<rparr>)"
    by (rule step3)
  show "commit cd wm_meta None
        \<lparr>file_fd = wm_f3, isSetup = False, offset = 216417, maxzoom = 9, version = 1,
           compression = NoneC, metadata = None\<rparr> =
      (Inr (), \<lparr>file_fd = wm_f4, isSetup = False, offset = 216417, maxzoom = 9, version = 1,
                 compression = NoneC, metadata = None\<rparr>)"
    by (rule step4)
qed (simp_all only: S2TilesStore.select_convs fsize_wm_f4 get_0_0_0 [OF assms] get_1_0_1 [OF assms]
       get_9_22_9 [OF assms] has_1_1_1 [OF assms] option.map fst_conv)

theorem wm_small_scenario_witness:
  "\<exists>s1 s2 s3 s4.
     putTile frame_codec 0 0 0 0 (utf8 ''hello world'') (new_S2TilesStore None (Some 9) (Some NoneC))
       = Some (Inr (), s1)
   \<and> putTile frame_codec 0 1 0 1 (utf8 ''hello world'') s1 = Some (Inr (), s2)
   \<and> putTile frame_codec 0 9 22 9 (utf8 ''hello world 2'') s2 = Some (Inr (), s3)
   \<and> commit frame_codec wm_meta None s3 = (Inr (), s4)
   \<and> fsize (file_fd s4) = 216417
   \<and> map_option fst (getTileS2 frame_codec 0 0 0 0 (new_S2TilesStore (Some (file_fd s4)) None None))
       = Some (Inr (Some (utf8 ''hello world'')))
   \<and> map_option fst (getTileS2 frame_codec 0 1 0 1 (new_S2TilesStore (Some (file_fd s4)) None None))
       = Some (Inr (Some (utf8 ''hello world'')))
   \<and> map_option fst (getTileS2 frame_codec 0 9 22 9 (new_S2TilesStore (Some (file_fd s4)) None None))
       = Some (Inr (Some (utf8 ''hello world 2'')))
   \<and> map_option fst (hasTileS2 frame_codec 0 1 1 1 (new_S2TilesStore (Some (file_fd s4)) None None))
       = Some (Inr False)"
proof -
  have p: "jsonParse frame_codec wm_meta = Inr [(''metadata'', True)]"
    by (simp add: frame_codec_def)
  from wm_small_scenario [OF p] show ?thesis .
qed




text \<open>
  Claim C9: when the store's fields fit the preamble and the metadata compresses,
  \<open>commit\<close> throws metadata-too-large exactly when the compressed metadata is longer than
  131062 bytes, and then leaves the store and its file as they were; otherwise it writes
  the ten bytes of the preamble at offset 0 and the compressed metadata at offset 10.
\<close>

theorem commit_metadata_too_large:
  assumes "version st \<le> 65535" "maxzoom st \<le> 255"
      and "(case tc of None \<Rightarrow> compression st | Some c \<Rightarrow> c) \<le> 255"
      and "compress cd metadata_json (compression st) = Inr blob"
  shows "(fst (commit cd metadata_json tc st) = Inl MetadataTooLarge \<longleftrightarrow> 131062 < length blob)
       \<and> (131062 < length blob \<longrightarrow> commit cd metadata_json tc st = (Inl MetadataTooLarge, st))
       \<and> (length blob \<le> 131062 \<longrightarrow>
            (\<exists>f'. commit cd metadata_json tc st = (Inr (), st\<lparr>file_fd := f'\<rparr>)
                \<and> fread f' 0 10 =
                    headerBytes (version st) (maxzoom st)
                      (case tc of None \<Rightarrow> compression st | Some c \<Rightarrow> c) (length blob)
                \<and> fread f' 10 (length blob) = blob))"
proof -
  let ?k = "case tc of None \<Rightarrow> compression st | Some c \<Rightarrow> c"
  let ?h = "headerBytes (version st) (maxzoom st) ?k (length blob)"
  let ?f = "let f1 = fwrite (file_fd st) 0 ?h in if blob = [] then f1 else fwrite f1 10 blob"
  have c: "commit cd metadata_json tc st =
      (if 131062 < length blob then (Inl MetadataTooLarge, st) else (Inr (), st\<lparr>file_fd := ?f\<rparr>))"
    using assms by (simp add: commit_eq Let_def)
  have "\<exists>f'. commit cd metadata_json tc st = (Inr (), st\<lparr>file_fd := f'\<rparr>)
                \<and> fread f' 0 10 = ?h \<and> fread f' 10 (length blob) = blob"
    if "length blob \<le> 131062"
  proof (intro exI [of _ ?f] conjI)
    show "commit cd metadata_json tc st = (Inr (), st\<lparr>file_fd := ?f\<rparr>)"
      using that by (simp add: c)
    show "fread ?f 0 10 = ?h" by (rule fread_commit_header)
    show "fread ?f 10 (length blob) = blob" by (rule fread_commit_blob)
  qed
  then show ?thesis by (auto simp: c)
qed

theorem commit_metadata_too_large_witness:
  "commit frame_codec (replicate 131063 0) None (new_S2TilesStore None (Some 9) (Some NoneC))
     = (Inl MetadataTooLarge, new_S2TilesStore None (Some 9) (Some NoneC))
   \<and> (\<exists>f'. commit frame_codec wm_meta None (new_S2TilesStore None (Some 9) (Some Gzip))
              = (Inr (), (new_S2TilesStore None (Some 9) (Some Gzip))\<lparr>file_fd := f'\<rparr>)
          \<and> fread f' 0 10 = headerBytes 1 9 Gzip 19
          \<and> fread f' 10 19 = 31 # 139 # wm_meta)"
proof -
  have a: "compress frame_codec (replicate 131063 0) (compression (new_S2TilesStore None (Some 9) (Some NoneC)))
     = Inr (replicate 131063 0)"
    by (simp add: compress_def new_S2TilesStore_def)
  have b: "compress frame_codec wm_meta (compression (new_S2TilesStore None (Some 9) (Some Gzip)))
     = Inr (31 # 139 # wm_meta)"
    by (simp add: compress_def new_S2TilesStore_def frame_codec_def Gzip_def NoneC_def)
  show ?thesis
    using commit_metadata_too_large [OF _ _ _ a, of None]
          commit_metadata_too_large [OF _ _ _ b, of None]
    by (simp add: new_S2TilesStore_def Gzip_def NoneC_def)
qed

text \<open>
  Claim C10: when the store's fields fit the preamble and the metadata compresses to at
  most 131062 bytes, a \<open>commit\<close> with a \<open>tileCompression\<close> other than the store's
  compression completes, writes that kind at offset 5 of the header and the metadata
  compressed with the store's own kind at offset 10; \<open>setupStore\<close> on a store newly opened
  on the file decompresses the metadata with the kind of the header, and parses what that
  gives.
\<close>

theorem commit_override_header_kind:
  assumes "version st \<le> 65535" "maxzoom st \<le> 255" "tc \<le> 255" "tc \<noteq> compression st"
      and "compress cd metadata_json (compression st) = Inr blob" "length blob \<le> 131062"
  shows "\<exists>f'. commit cd metadata_json (Some tc) st = (Inr (), st\<lparr>file_fd := f'\<rparr>)
       \<and> readUint8 (fread f' 0 10) 5 = tc
       \<and> fread f' 10 (length blob) = blob
       \<and> setupStore cd (new_S2TilesStore (Some f') None None) =
           (let rd = \<lparr>file_fd = f'\<lparr>fpos := 0\<rparr>, isSetup = True, offset = ROOT_SIZE,
                      maxzoom = maxzoom st, version = version st, compression = tc,
                      metadata = None\<rparr>
            in if blob = [] then (Inl FailedMetadata, rd)
               else case decompress cd blob tc of
                      Inl e \<Rightarrow> (Inl e, rd)
                    | Inr meta_data \<Rightarrow>
                        (case jsonParse cd meta_data of
                           Inl e \<Rightarrow> (Inl e, rd)
                         | Inr m \<Rightarrow> (Inr (), rd\<lparr>metadata := Some m\<rparr>)))"
proof -
  let ?h = "headerBytes (version st) (maxzoom st) tc (length blob)"
  define f where "f = (let f1 = fwrite (file_fd st) 0 ?h in if blob = [] then f1 else fwrite f1 10 blob)"
  have c: "commit cd metadata_json (Some tc) st = (Inr (), st\<lparr>file_fd := f\<rparr>)"
    using assms by (simp add: commit_eq Let_def f_def)
  have h: "fread f 0 10 = ?h" unfolding f_def by (rule fread_commit_header)
  have d: "fread f 10 (length blob) = blob" unfolding f_def by (rule fread_commit_blob)
  have l32: "length blob < 4294967296" using assms(6) by simp
  note hd = header_decode [OF assms(1) assms(2) assms(3) l32]
  have mn: "min (length blob) (ROOT_SIZE - 10) = length blob" using assms(6) by (simp add: const_vals)
  have s: "setupStore cd (new_S2TilesStore (Some f) None None) =
           (let rd = \<lparr>file_fd = f\<lparr>fpos := 0\<rparr>, isSetup = True, offset = ROOT_SIZE,
                      maxzoom = maxzoom st, version = version st, compression = tc,
                      metadata = None\<rparr>
            in if blob = [] then (Inl FailedMetadata, rd)
               else case decompress cd blob tc of
                      Inl e \<Rightarrow> (Inl e, rd)
                    | Inr meta_data \<Rightarrow>
                        (case jsonParse cd meta_data of
                           Inl e \<Rightarrow> (Inl e, rd)
                         | Inr m \<Rightarrow> (Inr (), rd\<lparr>metadata := Some m\<rparr>)))"
    by (simp add: setupStore_eq new_S2TilesStore_def h hd mn d Let_def split: sum.splits)
  from c h hd(4) d s show ?thesis by (intro exI [of _ f]) simp
qed

theorem commit_override_header_kind_witness:
  "(\<exists>s. commit frame_codec wm_meta (Some NoneC) (new_S2TilesStore None None None) = (Inr (), s)
       \<and> readUint8 (fread (file_fd s) 0 10) 5 = NoneC
       \<and> fread (file_fd s) 10 19 = 31 # 139 # wm_meta
       \<and> fst (setupStore frame_codec (new_S2TilesStore (Some (file_fd s)) None None))
           = Inl SyntaxError)
   \<and> (\<exists>s. commit frame_codec wm_meta (Some Gzip) (new_S2TilesStore None (Some 9) (Some NoneC))
             = (Inr (), s)
       \<and> readUint8 (fread (file_fd s) 0 10) 5 = Gzip
       \<and> fread (file_fd s) 10 17 = wm_meta
       \<and> fst (setupStore frame_codec (new_S2TilesStore (Some (file_fd s)) None None))
           = Inl CodecError)"
proof -
  let ?a = "new_S2TilesStore None None None :: (string \<times> bool) list S2TilesStore"
  let ?b = "new_S2TilesStore None (Some 9) (Some NoneC) :: (string \<times> bool) list S2TilesStore"
  have ca: "compress frame_codec wm_meta (compression ?a) = Inr (31 # 139 # wm_meta)"
    by (simp add: new_S2TilesStore_def gz_compress)
  have cb: "compress frame_codec wm_meta (compression ?b) = Inr wm_meta"
    by (simp add: new_S2TilesStore_def compress_def)
  have k: "NoneC \<le> 255" "NoneC \<noteq> Gzip" "Gzip \<le> 255" "Gzip \<noteq> NoneC"
    by (simp_all add: NoneC_def Gzip_def)
  have ja: "jsonParse frame_codec (31 # 139 # wm_meta) = Inl SyntaxError"
    by (simp add: frame_codec_def)
  have db: "decompress frame_codec wm_meta Gzip = Inl CodecError"
    by (simp add: decompress_def frame_codec_def unframe_def wm_meta_def utf8_def k)
  from commit_override_header_kind [OF _ _ k(1) _ ca, of ]
  have a: "\<exists>s. commit frame_codec wm_meta (Some NoneC) ?a = (Inr (), s)
       \<and> readUint8 (fread (file_fd s) 0 10) 5 = NoneC
       \<and> fread (file_fd s) 10 19 = 31 # 139 # wm_meta
       \<and> fst (setupStore frame_codec (new_S2TilesStore (Some (file_fd s)) None None))
           = Inl SyntaxError"
    by (auto simp: new_S2TilesStore_def k decompress_def ja Let_def)
  from commit_override_header_kind [OF _ _ k(3) _ cb]
  have b: "\<exists>s. commit frame_codec wm_meta (Some Gzip) ?b = (Inr (), s)
       \<and> readUint8 (fread (file_fd s) 0 10) 5 = Gzip
       \<and> fread (file_fd s) 10 17 = wm_meta
       \<and> fst (setupStore frame_codec (new_S2TilesStore (Some (file_fd s)) None None))
           = Inl CodecError"
    by (auto simp: new_S2TilesStore_def k db Let_def)
  from a b show ?thesis by blast
qed

end
